theory Spec2Isabelle
  imports Main "HOL-Library.Char_ord" "HOL-Library.List_Lexorder" "HOL-Library.Multiset"
    "HOL-Library.AList" "HOL-Library.Sublist"
begin

section \<open>Strings\<close>

text \<open>
  A Go string is a sequence of bytes; it is modelled as a \<open>string\<close> (a list of
  \<open>char\<close>, one per byte). Go compares strings bytewise and lexicographically, which is
  the order of \<open>HOL-Library.List_Lexorder\<close> over \<open>HOL-Library.Char_ord\<close>.
\<close>

definition dquote :: char where "dquote = CHR 0x22"
definition squote :: char where "squote = CHR 0x27"
definition bquote :: char where "bquote = CHR 0x60"
definition bslash :: char where "bslash = CHR 0x5C"

text \<open>\<open>strings.HasPrefix(s, p)\<close>\<close>

definition HasPrefix :: "string \<Rightarrow> string \<Rightarrow> bool" where
  "HasPrefix s p = (take (length p) s = p)"

text \<open>\<open>strings.Contains(s, sub)\<close>\<close>

fun Contains :: "string \<Rightarrow> string \<Rightarrow> bool" where
  "Contains [] sub = (sub = [])"
| "Contains (c # s) sub = (HasPrefix (c # s) sub \<or> Contains s sub)"

text \<open>\<open>strings.ContainsAny(s, chars)\<close>, for single-byte \<open>chars\<close>\<close>

definition ContainsAny :: "string \<Rightarrow> string \<Rightarrow> bool" where
  "ContainsAny s chars = list_ex (\<lambda>c. c \<in> set chars) s"

text \<open>
  \<open>strings.LastIndex(s, "/")\<close> for a one-byte separator: the index of its last
  occurrence, or \<open>-1\<close>.
\<close>

fun LastIndex :: "string \<Rightarrow> char \<Rightarrow> int" where
  "LastIndex [] sep = -1"
| "LastIndex (c # s) sep =
     (let i = LastIndex s sep in
      if i \<ge> 0 then i + 1 else if c = sep then 0 else -1)"

section \<open>The collaborators outside the file\<close>

text \<open>
  \<open>rule.go\<close> calls into the semver package, the gopkg.in path parser, the Go standard
  library (strconv, unicode, path/filepath, sort) and the Go runtime (iteration over a
  map). None of them is part of the file; they are parameters of the model.
  \<^item> \<open>ParseGopkgIn\<close> answers the major of a gopkg.in path, \<open>None\<close> when \<open>ok\<close> is false;
  \<^item> \<open>strconv_Unquote\<close> answers \<open>None\<close> for its syntax error;
  \<^item> \<open>runes s\<close> are the code points a \<open>range\<close> loop over \<open>s\<close> visits;
  \<^item> \<open>sort_Slice less xs\<close> is the slice after \<open>sort.Slice(xs, less)\<close>;
  \<^item> \<open>map_range m\<close> is the order in which a \<open>range\<close> loop visits the entries of a map.
\<close>

type_synonym ptr = nat

record ext =
  semver_IsValid :: "string \<Rightarrow> bool"
  semver_Canonical :: "string \<Rightarrow> string"
  semver_Major :: "string \<Rightarrow> string"
  ParseGopkgIn :: "string \<Rightarrow> string option"
  strconv_Unquote :: "string \<Rightarrow> string option"
  strconv_Quote :: "string \<Rightarrow> string"
  runes :: "string \<Rightarrow> nat list"
  unicode_IsPrint :: "nat \<Rightarrow> bool"
  filepath_Separator :: char
  sort_Slice :: "(ptr \<Rightarrow> ptr \<Rightarrow> bool) \<Rightarrow> ptr list \<Rightarrow> ptr list"
  map_range :: "(string \<times> string) list \<Rightarrow> (string \<times> string) list"

section \<open>String classification helpers\<close>

text \<open>\<open>IsDirectoryPath\<close>\<close>

definition IsDirectoryPath :: "string \<Rightarrow> bool" where
  "IsDirectoryPath ns =
     (HasPrefix ns ''./'' \<or> HasPrefix ns ''../'' \<or> HasPrefix ns ''/'' \<or>
      HasPrefix ns [CHR ''.'', bslash] \<or> HasPrefix ns [CHR ''.'', CHR ''.'', bslash] \<or>
      HasPrefix ns [bslash] \<or>
      (length ns \<ge> 2 \<and>
       (CHR ''A'' \<le> ns ! 0 \<and> ns ! 0 \<le> CHR ''Z'' \<or> CHR ''a'' \<le> ns ! 0 \<and> ns ! 0 \<le> CHR ''z'') \<and>
       ns ! 1 = CHR '':''))"

text \<open>\<open>MustQuote\<close>\<close>

definition MustQuote :: "ext \<Rightarrow> string \<Rightarrow> bool" where
  "MustQuote X s =
     (if list_ex (\<lambda>r. \<not> unicode_IsPrint X r \<or> r = 0x20 \<or> r = 0x22 \<or> r = 0x27 \<or> r = 0x60)
           (runes X s)
      then True
      else s = [] \<or> Contains s ''//'' \<or> Contains s ''/*'')"

text \<open>\<open>AutoQuote\<close>\<close>

definition AutoQuote :: "ext \<Rightarrow> string \<Rightarrow> string" where
  "AutoQuote X s = (if MustQuote X s then strconv_Quote X s else s)"

section \<open>Errors\<close>

datatype err =
    ErrSyntax
  | ErrUnquotedQuote
  | ErrFix string
  | ErrVersionForm
  | ErrInvalidVersionNumber string

type_synonym VersionFixer = "string \<Rightarrow> string \<Rightarrow> err + string"

section \<open>Parsing tokens\<close>

text \<open>
  \<open>parseString(s *string)\<close> returns a value and writes through its argument. The model
  returns the pair of the string \<open>*s\<close> holds afterwards and the returned value.
\<close>

definition parseString :: "ext \<Rightarrow> string \<Rightarrow> string \<times> (err + string)" where
  "parseString X s =
     (if HasPrefix s [dquote] then
        (case strconv_Unquote X s of
           None \<Rightarrow> (s, Inl ErrSyntax)
         | Some t \<Rightarrow> (AutoQuote X t, Inr t))
      else if ContainsAny s [dquote, squote, bquote] then (s, Inl ErrUnquotedQuote)
      else (AutoQuote X s, Inr s))"

text \<open>\<open>parseVersion(path, s, fix)\<close>, with \<open>fix = None\<close> for a nil fixer\<close>

definition parseVersion ::
  "ext \<Rightarrow> string \<Rightarrow> string \<Rightarrow> VersionFixer option \<Rightarrow> string \<times> (err + string)" where
  "parseVersion X path s fix =
     (case parseString X s of
        (s1, Inl e) \<Rightarrow> (s1, Inl e)
      | (s1, Inr t) \<Rightarrow>
          (case (case fix of None \<Rightarrow> Inr t | Some fx \<Rightarrow> fx path t) of
             Inl e \<Rightarrow> (s1, Inl e)
           | Inr t' \<Rightarrow>
               if semver_IsValid X t'
               then (semver_Canonical X t', Inr (semver_Canonical X t'))
               else (s1, Inl ErrVersionForm)))"

text \<open>\<open>isMajorVersion\<close>\<close>

definition isMajorVersion :: "string \<Rightarrow> bool" where
  "isMajorVersion v =
     (if length v < 2 \<or> v ! 0 \<noteq> CHR ''v'' then False
      else list_all (\<lambda>c. \<not> (c < CHR ''0'' \<or> CHR ''9'' < c)) (drop 1 v))"

text \<open>\<open>moduleMajorVersion\<close>\<close>

definition moduleMajorVersion :: "ext \<Rightarrow> string \<Rightarrow> err + string" where
  "moduleMajorVersion X p =
     (case ParseGopkgIn X p of
        Some major \<Rightarrow> Inr major
      | None \<Rightarrow>
          (let start = LastIndex p CHR ''/'' + 1;
               v = drop (nat start) p
           in if \<not> isMajorVersion v then Inr ''v1''
              else if v ! 1 = CHR ''0'' \<or> v = ''v1'' then Inl (ErrInvalidVersionNumber v)
              else Inr v))"

section \<open>The data model\<close>

text \<open>
  A \<open>*Line\<close> is a pointer: a record of the file and the syntax tree share the line, and
  both are updated through it. Lines live in a store \<open>Heap\<close> indexed by \<open>ptr\<close>; \<open>Next\<close>
  is the first pointer not allocated yet. A nil token slice is the empty list. Of the
  position \<open>Start\<close> only the line number is used.
\<close>

record Line =
  Token :: "string list"
  InBlock :: bool
  Start :: nat

text \<open>
  \<open>Expr\<close> is the interface over \<open>*Line\<close>, \<open>*LineBlock\<close> and \<open>*CommentBlock\<close>. A block
  is reachable from the statement list only, so it is kept by value: its tokens, the
  line number of its start and the pointers of its lines.
\<close>

datatype Expr =
    ExprLine ptr
  | ExprLineBlock "string list" nat "ptr list"
  | ExprCommentBlock "string list"

record FileSyntax =
  Name :: string
  Stmt :: "Expr list"
  Heap :: "ptr \<Rightarrow> Line"
  Next :: ptr

record module_Version =
  Path :: string
  Version :: string

text \<open>
  The structs \<open>Module\<close>, \<open>Require\<close> and \<open>Exclude\<close> have the same two fields and share
  one record type; \<open>Syntax = None\<close> is the nil pointer.
\<close>

record Module =
  Mod :: module_Version
  Syntax :: "ptr option"

type_synonym Require = Module
type_synonym Exclude = Module

record Replace =
  Old :: module_Version
  New :: module_Version
  RSyntax :: "ptr option"

record File =
  Module :: "Module option"
  Require :: "Require list"
  Exclude :: "Exclude list"
  Replace :: "Replace list"
  FSyntax :: FileSyntax

section \<open>Decoding\<close>

text \<open>
  The diagnostics written to the buffer \<open>errs\<close>, one entry per \<open>Fprintf\<close>: the file
  name, the line number and the message.
\<close>

datatype msg =
    UnknownDirective string
  | UnknownBlockType "string list"
  | RepeatedModule
  | UsageModule
  | InvalidQuotedString err
  | UsageRequire string
  | InvalidModuleVersion string err
  | MajorVersionError err
  | InvalidModule string string string string
  | UsageReplace string
  | ReplacementNotDirectory
  | ReplacementWindowsPath
  | ReplacementDirectoryVersion string

type_synonym diag = "string \<times> nat \<times> msg"

definition diag :: "File \<Rightarrow> ptr \<Rightarrow> msg \<Rightarrow> diag" where
  "diag f line m = (Name (FSyntax f), Start (Heap (FSyntax f) line), m)"

text \<open>
  \<open>File.add\<close>. The slice \<open>args\<close> aliases the tokens of \<open>line\<close>, and \<open>parseString\<close> and
  \<open>parseVersion\<close> write through \<open>&args[i]\<close>: the model returns the file, the buffer and
  \<open>args\<close> as they are when \<open>add\<close> returns.
\<close>

definition File_add ::
  "ext \<Rightarrow> VersionFixer option \<Rightarrow> File \<Rightarrow> diag list \<Rightarrow> ptr \<Rightarrow> string \<Rightarrow> string list
     \<Rightarrow> File \<times> diag list \<times> string list" where
  "File_add X fix f errs line verb args =
    (if verb = ''module'' then
       (if Module f \<noteq> None then (f, errs @ [diag f line RepeatedModule], args)
        else
          let f1 = f\<lparr>Module := Some \<lparr>Mod = \<lparr>Path = [], Version = []\<rparr>, Syntax = Some line\<rparr>\<rparr>
          in if length args \<noteq> 1 then (f1, errs @ [diag f line UsageModule], args)
             else
               (case parseString X (args ! 0) of
                  (a0, Inl e) \<Rightarrow> (f1, errs @ [diag f line (InvalidQuotedString e)], args[0 := a0])
                | (a0, Inr s) \<Rightarrow>
                    (f\<lparr>Module := Some \<lparr>Mod = \<lparr>Path = s, Version = []\<rparr>, Syntax = Some line\<rparr>\<rparr>,
                     errs, args[0 := a0])))
     else if verb = ''require'' \<or> verb = ''exclude'' then
       (if length args \<noteq> 2 then (f, errs @ [diag f line (UsageRequire verb)], args)
        else
          (case parseString X (args ! 0) of
             (a0, Inl e) \<Rightarrow> (f, errs @ [diag f line (InvalidQuotedString e)], args[0 := a0])
           | (a0, Inr s) \<Rightarrow>
               (let old = args ! 1 in
                case parseVersion X s (args ! 1) fix of
                  (a1, Inl e) \<Rightarrow>
                    (f, errs @ [diag f line (InvalidModuleVersion old e)], args[0 := a0, 1 := a1])
                | (a1, Inr v) \<Rightarrow>
                    (case moduleMajorVersion X s of
                       Inl e \<Rightarrow>
                         (f, errs @ [diag f line (MajorVersionError e)], args[0 := a0, 1 := a1])
                     | Inr v1 \<Rightarrow>
                         (let v2 = semver_Major X v in
                          if v1 \<noteq> v2 \<and> (v1 \<noteq> ''v1'' \<or> v2 \<noteq> ''v0'') then
                            (f, errs @ [diag f line (InvalidModule s v1 v2 v)],
                             args[0 := a0, 1 := a1])
                          else if verb = ''require'' then
                            (f\<lparr>Require := Require f @
                                [\<lparr>Mod = \<lparr>Path = s, Version = v\<rparr>, Syntax = Some line\<rparr>]\<rparr>,
                             errs, args[0 := a0, 1 := a1])
                          else
                            (f\<lparr>Exclude := Exclude f @
                                [\<lparr>Mod = \<lparr>Path = s, Version = v\<rparr>, Syntax = Some line\<rparr>]\<rparr>,
                             errs, args[0 := a0, 1 := a1]))))))
     else if verb = ''replace'' then
       (if length args < 4 \<or> length args > 5 \<or> args ! 2 \<noteq> ''=>'' then
          (f, errs @ [diag f line (UsageReplace verb)], args)
        else
          (case parseString X (args ! 0) of
             (a0, Inl e) \<Rightarrow> (f, errs @ [diag f line (InvalidQuotedString e)], args[0 := a0])
           | (a0, Inr s) \<Rightarrow>
               (let old = args ! 1 in
                case parseVersion X s (args ! 1) fix of
                  (a1, Inl e) \<Rightarrow>
                    (f, errs @ [diag f line (InvalidModuleVersion old e)], args[0 := a0, 1 := a1])
                | (a1, Inr v) \<Rightarrow>
                    (case moduleMajorVersion X s of
                       Inl e \<Rightarrow>
                         (f, errs @ [diag f line (MajorVersionError e)], args[0 := a0, 1 := a1])
                     | Inr v1 \<Rightarrow>
                         (let v2 = semver_Major X v in
                          if v1 \<noteq> v2 \<and> (v1 \<noteq> ''v1'' \<or> v2 \<noteq> ''v0'') then
                            (f, errs @ [diag f line (InvalidModule s v1 v2 v)],
                             args[0 := a0, 1 := a1])
                          else
                            (case parseString X (args ! 3) of
                               (a3, Inl e) \<Rightarrow>
                                 (f, errs @ [diag f line (InvalidQuotedString e)],
                                  args[0 := a0, 1 := a1, 3 := a3])
                             | (a3, Inr ns) \<Rightarrow>
                                 (let args3 = args[0 := a0, 1 := a1, 3 := a3] in
                                  if length args = 4 \<and> \<not> IsDirectoryPath ns then
                                    (f, errs @ [diag f line ReplacementNotDirectory], args3)
                                  else if length args = 4 \<and> filepath_Separator X = CHR ''/'' \<and>
                                          Contains ns [bslash] then
                                    (f, errs @ [diag f line ReplacementWindowsPath], args3)
                                  else if length args = 5 then
                                    (let old = args ! 4 in
                                     case parseVersion X ns (args ! 4) fix of
                                       (a4, Inl e) \<Rightarrow>
                                         (f, errs @ [diag f line (InvalidModuleVersion old e)],
                                          args3[4 := a4])
                                     | (a4, Inr nv) \<Rightarrow>
                                         if IsDirectoryPath ns then
                                           (f, errs @
                                              [diag f line (ReplacementDirectoryVersion ns)],
                                            args3[4 := a4])
                                         else
                                           (f\<lparr>Replace := Replace f @
                                               [\<lparr>Old = \<lparr>Path = s, Version = v\<rparr>,
                                                 New = \<lparr>Path = ns, Version = nv\<rparr>,
                                                 RSyntax = Some line\<rparr>]\<rparr>,
                                            errs, args3[4 := a4]))
                                  else
                                    (f\<lparr>Replace := Replace f @
                                        [\<lparr>Old = \<lparr>Path = s, Version = v\<rparr>,
                                          New = \<lparr>Path = ns, Version = []\<rparr>,
                                          RSyntax = Some line\<rparr>]\<rparr>,
                                     errs, args3))))))))
     else (f, errs @ [diag f line (UnknownDirective verb)], args))"

text \<open>Writing the tokens of a line in the store.\<close>

definition set_Token :: "File \<Rightarrow> ptr \<Rightarrow> string list \<Rightarrow> File" where
  "set_Token f l toks =
     f\<lparr>FSyntax := (FSyntax f)\<lparr>Heap := (Heap (FSyntax f))(l := (Heap (FSyntax f) l)\<lparr>Token := toks\<rparr>)\<rparr>\<rparr>"

text \<open>
  The loop of \<open>Parse\<close> over a block's lines: \<open>f.add(&errs, l, x.Token[0], l.Token, fix)\<close>
  with the tokens of \<open>l\<close> as \<open>args\<close>.
\<close>

fun Parse_lines ::
  "ext \<Rightarrow> VersionFixer option \<Rightarrow> string \<Rightarrow> ptr list \<Rightarrow> File \<times> diag list \<Rightarrow> File \<times> diag list" where
  "Parse_lines X fix verb [] (f, errs) = (f, errs)"
| "Parse_lines X fix verb (l # ls) (f, errs) =
     (case File_add X fix f errs l verb (Token (Heap (FSyntax f) l)) of
        (f1, errs1, args1) \<Rightarrow> Parse_lines X fix verb ls (set_Token f1 l args1, errs1))"

text \<open>
  One round of the loop of \<open>Parse\<close> over the statements. The result \<open>None\<close> is the
  run-time panic of \<open>x.Token[0]\<close> on a statement with no token.
\<close>

fun Parse_stmt ::
  "ext \<Rightarrow> VersionFixer option \<Rightarrow> Expr \<Rightarrow> File \<times> diag list \<Rightarrow> (File \<times> diag list) option" where
  "Parse_stmt X fix (ExprLine x) (f, errs) =
     (case Token (Heap (FSyntax f) x) of
        [] \<Rightarrow> None
      | verb # args \<Rightarrow>
          (case File_add X fix f errs x verb args of
             (f1, errs1, args1) \<Rightarrow> Some (set_Token f1 x (verb # args1), errs1)))"
| "Parse_stmt X fix (ExprLineBlock toks start ls) (f, errs) =
     (if length toks > 1 then
        Some (f, errs @ [(Name (FSyntax f), start, UnknownBlockType toks)])
      else
        (case toks of
           [] \<Rightarrow> None
         | verb # _ \<Rightarrow>
             if verb = ''module'' \<or> verb = ''require'' \<or> verb = ''exclude'' \<or> verb = ''replace''
             then Some (Parse_lines X fix verb ls (f, errs))
             else Some (f, errs @ [(Name (FSyntax f), start, UnknownBlockType toks)])))"
| "Parse_stmt X fix (ExprCommentBlock c) (f, errs) = Some (f, errs)"

fun Parse_stmts ::
  "ext \<Rightarrow> VersionFixer option \<Rightarrow> Expr list \<Rightarrow> File \<times> diag list \<Rightarrow> (File \<times> diag list) option" where
  "Parse_stmts X fix [] st = Some st"
| "Parse_stmts X fix (x # xs) st =
     (case Parse_stmt X fix x st of
        None \<Rightarrow> None
      | Some st1 \<Rightarrow> Parse_stmts X fix xs st1)"

text \<open>
  \<open>Parse\<close>, from the syntax tree \<open>fs\<close> that the tokenizer \<open>parse(file, data)\<close> returned
  (its error return leaves \<open>Parse\<close> at once). \<open>Inl\<close> is the aggregate error.
\<close>

definition Parse :: "ext \<Rightarrow> FileSyntax \<Rightarrow> VersionFixer option \<Rightarrow> (diag list + File) option" where
  "Parse X fs fix =
     (case Parse_stmts X fix (Stmt fs)
             (\<lparr>Module = None, Require = [], Exclude = [], Replace = [], FSyntax = fs\<rparr>, []) of
        None \<Rightarrow> None
      | Some (f, errs) \<Rightarrow> Some (if errs \<noteq> [] then Inl errs else Inr f))"

section \<open>The syntax tree's editing primitives\<close>

text \<open>
  Modelled from the spec: \<open>FileSyntax.updateLine\<close>, which is not in \<open>rule.go\<close>. It
  replaces the tokens of the line; a line nested in a block carries its arguments only
  (spec 4.1), so there the leading verb is left out. A nil line cannot be written
  through: the result \<open>None\<close> is the nil dereference.
\<close>

definition updateLine :: "FileSyntax \<Rightarrow> ptr option \<Rightarrow> string list \<Rightarrow> FileSyntax option" where
  "updateLine x line tokens =
     (case line of
        None \<Rightarrow> None
      | Some l \<Rightarrow>
          Some (x\<lparr>Heap := (Heap x)
                  (l := (Heap x l)\<lparr>Token := (if InBlock (Heap x l) then tl tokens else tokens)\<rparr>)\<rparr>))"

text \<open>
  Modelled from the spec: \<open>FileSyntax.removeLine\<close>, which is not in \<open>rule.go\<close>. The node
  is marked as removed and stays in the tree until the compaction pass (spec 3 and
  glossary, "tombstone"); the mark is the nil token slice.
\<close>

definition removeLine :: "FileSyntax \<Rightarrow> ptr option \<Rightarrow> FileSyntax option" where
  "removeLine x line =
     (case line of
        None \<Rightarrow> None
      | Some l \<Rightarrow> Some (x\<lparr>Heap := (Heap x)(l := (Heap x l)\<lparr>Token := []\<rparr>)\<rparr>))"

text \<open>
  Modelled from the spec: \<open>FileSyntax.addLine\<close>, which is not in \<open>rule.go\<close>: "insert
  after node X if given, else append at end" (spec 9). \<open>insert_after h new stmts\<close>
  answers the statements with the new line after \<open>h\<close> and whether that place is inside a
  block, or \<open>None\<close> when \<open>h\<close> is not in the tree.
\<close>

fun insert_after :: "ptr \<Rightarrow> ptr \<Rightarrow> Expr list \<Rightarrow> (Expr list \<times> bool) option" where
  "insert_after h new [] = None"
| "insert_after h new (ExprLine l # ss) =
     (if l = h then Some (ExprLine l # ExprLine new # ss, False)
      else map_option (\<lambda>(ss', b). (ExprLine l # ss', b)) (insert_after h new ss))"
| "insert_after h new (ExprLineBlock toks start ls # ss) =
     (if h \<in> set ls then
        Some (ExprLineBlock toks start
                (takeWhile (\<lambda>l. l \<noteq> h) ls @ h # new # tl (dropWhile (\<lambda>l. l \<noteq> h) ls)) # ss,
              True)
      else map_option (\<lambda>(ss', b). (ExprLineBlock toks start ls # ss', b)) (insert_after h new ss))"
| "insert_after h new (ExprCommentBlock c # ss) =
     map_option (\<lambda>(ss', b). (ExprCommentBlock c # ss', b)) (insert_after h new ss)"

definition addLine :: "FileSyntax \<Rightarrow> ptr option \<Rightarrow> string list \<Rightarrow> FileSyntax \<times> ptr" where
  "addLine x hint tokens =
     (let new = Next x;
          place = (case hint of None \<Rightarrow> None | Some h \<Rightarrow> insert_after h new (Stmt x))
      in case place of
           None \<Rightarrow>
             (x\<lparr>Stmt := Stmt x @ [ExprLine new],
                Heap := (Heap x)(new := \<lparr>Token = tokens, InBlock = False, Start = 0\<rparr>),
                Next := Suc new\<rparr>, new)
         | Some (ss, in_block) \<Rightarrow>
             (x\<lparr>Stmt := ss,
                Heap := (Heap x)
                  (new := \<lparr>Token = (if in_block then tl tokens else tokens),
                           InBlock = in_block, Start = 0\<rparr>),
                Next := Suc new\<rparr>, new))"

section \<open>The edit operations\<close>

text \<open>The zero values \<open>Require{}\<close>, \<open>Exclude{}\<close> and \<open>Replace{}\<close>.\<close>

definition zero_Version :: module_Version where
  "zero_Version = \<lparr>Path = [], Version = []\<rparr>"

definition zero_Require :: Require where
  "zero_Require = \<lparr>Mod = zero_Version, Syntax = None\<rparr>"

definition zero_Replace :: Replace where
  "zero_Replace = \<lparr>Old = zero_Version, New = zero_Version, RSyntax = None\<rparr>"

text \<open>
  The loop of \<open>AddRequire\<close> over \<open>f.Require\<close>, with the flag \<open>need\<close> and the syntax tree
  as its state; it answers the records as the loop leaves them.
\<close>

fun AddRequire_loop ::
  "ext \<Rightarrow> string \<Rightarrow> string \<Rightarrow> Require list \<Rightarrow> bool \<Rightarrow> FileSyntax
     \<Rightarrow> (Require list \<times> bool \<times> FileSyntax) option" where
  "AddRequire_loop X path vers [] need x = Some ([], need, x)"
| "AddRequire_loop X path vers (r # rs) need x =
     (if Path (Mod r) = path then
        (if need then
           (case updateLine x (Syntax r) [''require'', AutoQuote X path, vers] of
              None \<Rightarrow> None
            | Some x1 \<Rightarrow>
                (case AddRequire_loop X path vers rs False x1 of
                   None \<Rightarrow> None
                 | Some (rs', need', x') \<Rightarrow>
                     Some (r\<lparr>Mod := (Mod r)\<lparr>Version := vers\<rparr>\<rparr> # rs', need', x')))
         else
           (case removeLine x (Syntax r) of
              None \<Rightarrow> None
            | Some x1 \<Rightarrow>
                (case AddRequire_loop X path vers rs need x1 of
                   None \<Rightarrow> None
                 | Some (rs', need', x') \<Rightarrow> Some (zero_Require # rs', need', x'))))
      else
        (case AddRequire_loop X path vers rs need x of
           None \<Rightarrow> None
         | Some (rs', need', x') \<Rightarrow> Some (r # rs', need', x')))"

text \<open>\<open>AddNewRequire\<close>\<close>

definition AddNewRequire :: "ext \<Rightarrow> File \<Rightarrow> string \<Rightarrow> string \<Rightarrow> File" where
  "AddNewRequire X f path vers =
     (case addLine (FSyntax f) None [''require'', AutoQuote X path, vers] of
        (x', l) \<Rightarrow>
          f\<lparr>Require := Require f @ [\<lparr>Mod = \<lparr>Path = path, Version = vers\<rparr>, Syntax = Some l\<rparr>],
            FSyntax := x'\<rparr>)"

text \<open>\<open>AddRequire\<close>; \<open>None\<close> is a nil dereference in the loop.\<close>

definition AddRequire :: "ext \<Rightarrow> File \<Rightarrow> string \<Rightarrow> string \<Rightarrow> File option" where
  "AddRequire X f path vers =
     (case AddRequire_loop X path vers (Require f) True (FSyntax f) of
        None \<Rightarrow> None
      | Some (rs', need, x') \<Rightarrow>
          (let f1 = f\<lparr>Require := rs', FSyntax := x'\<rparr>
           in Some (if need then AddNewRequire X f1 path vers else f1)))"

text \<open>\<open>DropRequire\<close>\<close>

fun DropRequire_loop ::
  "string \<Rightarrow> Require list \<Rightarrow> FileSyntax \<Rightarrow> (Require list \<times> FileSyntax) option" where
  "DropRequire_loop path [] x = Some ([], x)"
| "DropRequire_loop path (r # rs) x =
     (if Path (Mod r) = path then
        (case removeLine x (Syntax r) of
           None \<Rightarrow> None
         | Some x1 \<Rightarrow>
             map_option (\<lambda>(rs', x'). (zero_Require # rs', x')) (DropRequire_loop path rs x1))
      else map_option (\<lambda>(rs', x'). (r # rs', x')) (DropRequire_loop path rs x))"

definition DropRequire :: "File \<Rightarrow> string \<Rightarrow> File option" where
  "DropRequire f path =
     map_option (\<lambda>(rs', x'). f\<lparr>Require := rs', FSyntax := x'\<rparr>)
       (DropRequire_loop path (Require f) (FSyntax f))"

text \<open>
  The loop of \<open>AddExclude\<close> over \<open>f.Exclude\<close>: \<open>None\<close> when it returns from the function
  at a record with the same path and version, the hint otherwise.
\<close>

fun AddExclude_loop :: "string \<Rightarrow> string \<Rightarrow> Exclude list \<Rightarrow> ptr option \<Rightarrow> ptr option option" where
  "AddExclude_loop path vers [] hint = Some hint"
| "AddExclude_loop path vers (x # xs) hint =
     (if Path (Mod x) = path \<and> Version (Mod x) = vers then None
      else if Path (Mod x) = path then AddExclude_loop path vers xs (Syntax x)
      else AddExclude_loop path vers xs hint)"

definition AddExclude :: "ext \<Rightarrow> File \<Rightarrow> string \<Rightarrow> string \<Rightarrow> File" where
  "AddExclude X f path vers =
     (case AddExclude_loop path vers (Exclude f) None of
        None \<Rightarrow> f
      | Some hint \<Rightarrow>
          (case addLine (FSyntax f) hint [''exclude'', AutoQuote X path, vers] of
             (x', l) \<Rightarrow>
               f\<lparr>Exclude := Exclude f @ [\<lparr>Mod = \<lparr>Path = path, Version = vers\<rparr>, Syntax = Some l\<rparr>],
                 FSyntax := x'\<rparr>))"

section \<open>The normalizer\<close>

text \<open>
  The two marking loops of \<open>removeDups\<close> have the same body; \<open>mark_dups key syn xs\<close> runs
  it over \<open>xs\<close> from the maps \<open>have\<close> and \<open>kill\<close> (as the sets of their keys) and answers
  both. The loop over \<open>f.Replace\<close> runs from the last index down, that is over the
  reversed slice.
\<close>

fun mark_dups ::
  "('a \<Rightarrow> module_Version) \<Rightarrow> ('a \<Rightarrow> ptr option) \<Rightarrow> 'a list \<Rightarrow> module_Version set
     \<Rightarrow> ptr option set \<Rightarrow> module_Version set \<times> ptr option set" where
  "mark_dups key syn [] have kill = (have, kill)"
| "mark_dups key syn (x # xs) have kill =
     (if key x \<in> have then mark_dups key syn xs have (insert (syn x) kill)
      else mark_dups key syn xs (insert (key x) have) kill)"

text \<open>The last loop of \<open>removeDups\<close>, over the statements.\<close>

fun removeDups_stmts :: "ptr option set \<Rightarrow> Expr list \<Rightarrow> Expr list" where
  "removeDups_stmts kill [] = []"
| "removeDups_stmts kill (ExprLine l # ss) =
     (if Some l \<in> kill then removeDups_stmts kill ss
      else ExprLine l # removeDups_stmts kill ss)"
| "removeDups_stmts kill (ExprLineBlock toks start ls # ss) =
     (let lines = filter (\<lambda>l. Some l \<notin> kill) ls
      in if length lines = 0 then removeDups_stmts kill ss
         else ExprLineBlock toks start lines # removeDups_stmts kill ss)"
| "removeDups_stmts kill (ExprCommentBlock c # ss) =
     ExprCommentBlock c # removeDups_stmts kill ss"

definition removeDups :: "File \<Rightarrow> File" where
  "removeDups f =
     (let kill1 = snd (mark_dups Mod Syntax (Exclude f) {} {});
          excl = filter (\<lambda>x. Syntax x \<notin> kill1) (Exclude f);
          kill2 = snd (mark_dups Old RSyntax (rev (Replace f)) {} kill1);
          repl = filter (\<lambda>x. RSyntax x \<notin> kill2) (Replace f);
          stmts = removeDups_stmts kill2 (Stmt (FSyntax f))
      in f\<lparr>Exclude := excl, Replace := repl, FSyntax := (FSyntax f)\<lparr>Stmt := stmts\<rparr>\<rparr>)"

text \<open>
  The comparison that \<open>SortBlocks\<close> hands to \<open>sort.Slice\<close>, on the tokens of two lines.
\<close>

fun less_Token :: "string list \<Rightarrow> string list \<Rightarrow> bool" where
  "less_Token (a # as) (b # bs) = (if a \<noteq> b then a < b else less_Token as bs)"
| "less_Token as bs = (length as < length bs)"

definition less_Line :: "(ptr \<Rightarrow> Line) \<Rightarrow> ptr \<Rightarrow> ptr \<Rightarrow> bool" where
  "less_Line h li lj = less_Token (Token (h li)) (Token (h lj))"

fun SortBlocks_stmt :: "ext \<Rightarrow> (ptr \<Rightarrow> Line) \<Rightarrow> Expr \<Rightarrow> Expr" where
  "SortBlocks_stmt X h (ExprLineBlock toks start ls) =
     ExprLineBlock toks start (sort_Slice X (less_Line h) ls)"
| "SortBlocks_stmt X h stmt = stmt"

definition SortBlocks :: "ext \<Rightarrow> File \<Rightarrow> File" where
  "SortBlocks X f =
     (let f1 = removeDups f
      in f1\<lparr>FSyntax := (FSyntax f1)
              \<lparr>Stmt := map (SortBlocks_stmt X (Heap (FSyntax f1))) (Stmt (FSyntax f1))\<rparr>\<rparr>)"

section \<open>SetRequire\<close>

text \<open>
  The map \<open>need\<close> is an association list with distinct keys; \<open>need_at need p\<close> is the Go
  expression \<open>need[p]\<close>, the empty string for a missing key.
\<close>

type_synonym need_map = "(string \<times> string) list"

definition need_at :: "need_map \<Rightarrow> string \<Rightarrow> string" where
  "need_at need p = (case map_of need p of None \<Rightarrow> [] | Some v \<Rightarrow> v)"

definition make_need :: "module_Version list \<Rightarrow> need_map" where
  "make_need req = foldl (\<lambda>need m. AList.update (Path m) (Version m) need) [] req"

definition SetRequire_records :: "need_map \<Rightarrow> Require list \<Rightarrow> Require list" where
  "SetRequire_records need rs =
     map (\<lambda>r. case map_of need (Path (Mod r)) of
                None \<Rightarrow> r
              | Some v \<Rightarrow> r\<lparr>Mod := (Mod r)\<lparr>Version := v\<rparr>\<rparr>) rs"

text \<open>
  The inner loop of \<open>SetRequire\<close> over the lines of a require block. It answers the
  lines kept (\<open>newLines\<close>), the map and the store; \<open>None\<close> is the panic of an index out
  of range (\<open>line.Token[0]\<close>, \<open>line.Token[1]\<close>).
\<close>

fun SetRequire_lines ::
  "ext \<Rightarrow> ptr list \<Rightarrow> need_map \<Rightarrow> (ptr \<Rightarrow> Line)
     \<Rightarrow> (ptr list \<times> need_map \<times> (ptr \<Rightarrow> Line)) option" where
  "SetRequire_lines X [] need h = Some ([], need, h)"
| "SetRequire_lines X (l # ls) need h =
     (case Token (h l) of
        [] \<Rightarrow> None
      | t0 # ts \<Rightarrow>
          (case parseString X t0 of
             (a0, Inl e) \<Rightarrow> SetRequire_lines X ls need h
           | (a0, Inr p) \<Rightarrow>
               (let h1 = h(l := (h l)\<lparr>Token := a0 # ts\<rparr>)
                in if need_at need p \<noteq> [] then
                     (case ts of
                        [] \<Rightarrow> None
                      | t1 # ts' \<Rightarrow>
                          (case SetRequire_lines X ls (AList.delete p need)
                                  (h1(l := (h1 l)\<lparr>Token := a0 # need_at need p # ts'\<rparr>)) of
                             None \<Rightarrow> None
                           | Some (ls', need', h') \<Rightarrow> Some (l # ls', need', h')))
                   else SetRequire_lines X ls need h1)))"

text \<open>
  The loop of \<open>SetRequire\<close> over the statements; it answers \<open>newStmts\<close>, the map and the
  store. \<open>None\<close> is the panic of an index out of range (\<open>stmt.Token[1]\<close>,
  \<open>stmt.Token[2]\<close>, or one of the inner loop).
\<close>

fun SetRequire_stmts ::
  "ext \<Rightarrow> Expr list \<Rightarrow> need_map \<Rightarrow> (ptr \<Rightarrow> Line)
     \<Rightarrow> (Expr list \<times> need_map \<times> (ptr \<Rightarrow> Line)) option" where
  "SetRequire_stmts X [] need h = Some ([], need, h)"
| "SetRequire_stmts X (ExprLineBlock toks start ls # ss) need h =
     (if length toks > 0 \<and> toks ! 0 = ''require'' then
        (case SetRequire_lines X ls need h of
           None \<Rightarrow> None
         | Some (newLines, need1, h1) \<Rightarrow>
             (case SetRequire_stmts X ss need1 h1 of
                None \<Rightarrow> None
              | Some (ss', need', h') \<Rightarrow>
                  if length newLines = 0 then Some (ss', need', h')
                  else Some (ExprLineBlock toks start newLines # ss', need', h')))
      else
        (case SetRequire_stmts X ss need h of
           None \<Rightarrow> None
         | Some (ss', need', h') \<Rightarrow> Some (ExprLineBlock toks start ls # ss', need', h')))"
| "SetRequire_stmts X (ExprLine l # ss) need h =
     (if length (Token (h l)) > 0 \<and> Token (h l) ! 0 = ''require'' then
        (case tl (Token (h l)) of
           [] \<Rightarrow> None
         | t1 # ts \<Rightarrow>
             (case parseString X t1 of
                (a1, Inl e) \<Rightarrow> SetRequire_stmts X ss need h
              | (a1, Inr p) \<Rightarrow>
                  (let h1 = h(l := (h l)\<lparr>Token := ''require'' # a1 # ts\<rparr>)
                   in if need_at need p \<noteq> [] then
                        (case ts of
                           [] \<Rightarrow> None
                         | t2 # ts' \<Rightarrow>
                             (case SetRequire_stmts X ss (AList.delete p need)
                                     (h1(l := (h1 l)
                                        \<lparr>Token := ''require'' # a1 # need_at need p # ts'\<rparr>)) of
                                None \<Rightarrow> None
                              | Some (ss', need', h') \<Rightarrow> Some (ExprLine l # ss', need', h')))
                      else SetRequire_stmts X ss need h1)))
      else
        (case SetRequire_stmts X ss need h of
           None \<Rightarrow> None
         | Some (ss', need', h') \<Rightarrow> Some (ExprLine l # ss', need', h')))"
| "SetRequire_stmts X (ExprCommentBlock c # ss) need h =
     (case SetRequire_stmts X ss need h of
        None \<Rightarrow> None
      | Some (ss', need', h') \<Rightarrow> Some (ExprCommentBlock c # ss', need', h'))"

text \<open>
  \<open>SetRequire\<close>. The last loop ranges over what is left of \<open>need\<close>, in the order the
  runtime picks.
\<close>

definition SetRequire :: "ext \<Rightarrow> File \<Rightarrow> module_Version list \<Rightarrow> File option" where
  "SetRequire X f req =
     (let need = make_need req;
          f1 = f\<lparr>Require := SetRequire_records need (Require f)\<rparr>
      in case SetRequire_stmts X (Stmt (FSyntax f1)) need (Heap (FSyntax f1)) of
           None \<Rightarrow> None
         | Some (newStmts, need', h') \<Rightarrow>
             (let f2 = f1\<lparr>FSyntax := (FSyntax f1)\<lparr>Stmt := newStmts, Heap := h'\<rparr>\<rparr>;
                  f3 = foldl (\<lambda>g (path, vers). AddNewRequire X g path vers) f2 (map_range X need')
              in Some (SortBlocks X f3)))"

section \<open>A reference environment\<close>

text \<open>
  To run the model on concrete files the collaborators are fixed on the fragment the
  examples use: ASCII strings, versions of the plain form \<open>vMAJOR.MINOR.PATCH\<close>, quoted
  literals whose only escapes are of the quote and the backslash, \<open>/\<close> as the path
  separator, an insertion sort, and a map that is ranged over in the order of insertion.
\<close>

fun split_on :: "char \<Rightarrow> string \<Rightarrow> string list" where
  "split_on sep [] = [[]]"
| "split_on sep (c # s) =
     (case split_on sep s of
        [] \<Rightarrow> [[c]]
      | w # ws \<Rightarrow> if c = sep then [] # w # ws else (c # w) # ws)"

definition is_digit :: "char \<Rightarrow> bool" where
  "is_digit c = (CHR ''0'' \<le> c \<and> c \<le> CHR ''9'')"

definition is_number :: "string \<Rightarrow> bool" where
  "is_number s = (s \<noteq> [] \<and> list_all is_digit s)"

text \<open>
  Modelled from the spec: the semver package, which is not in \<open>rule.go\<close>: syntax
  validation, canonical form and major component of a version (spec 1), here for the
  versions \<open>vMAJOR.MINOR.PATCH\<close> of decimal numbers only, which are canonical as they are.
\<close>

definition ref_IsValid :: "string \<Rightarrow> bool" where
  "ref_IsValid v =
     (case v of
        [] \<Rightarrow> False
      | c # r \<Rightarrow> c = CHR ''v'' \<and> length (split_on CHR ''.'' r) = 3 \<and>
                 list_all is_number (split_on CHR ''.'' r))"

definition ref_Major :: "string \<Rightarrow> string" where
  "ref_Major v = (if ref_IsValid v then takeWhile (\<lambda>c. c \<noteq> CHR ''.'') v else [])"

text \<open>
  Modelled from the spec: \<open>ParseGopkgIn\<close>, which is not in \<open>rule.go\<close>: a path of the
  legacy dotted-host encoding embeds its major as \<open>.vN\<close> at the end of the first or the
  second segment after the host \<open>gopkg.in\<close>, and that major is returned directly
  (spec 4.2).
\<close>

definition ref_dotV :: "string \<Rightarrow> string option" where
  "ref_dotV name =
     (let ds = rev (takeWhile is_digit (rev name));
          el = take (length name - length ds) name
      in if ds \<noteq> [] \<and> length el > 2 \<and> last el = CHR ''v'' \<and> last (butlast el) = CHR ''.'' \<and>
            \<not> (hd ds = CHR ''0'' \<and> length ds \<noteq> 1)
         then Some (CHR ''v'' # ds) else None)"

definition ref_ParseGopkgIn :: "string \<Rightarrow> string option" where
  "ref_ParseGopkgIn path =
     (if \<not> HasPrefix path ''gopkg.in/'' then None
      else
        (let f = split_on CHR ''/'' path
         in case (if length f \<ge> 2 then ref_dotV (f ! 1) else None) of
              Some v \<Rightarrow> Some v
            | None \<Rightarrow> (if length f \<ge> 3 then ref_dotV (f ! 2) else None)))"

definition ref_Unquote :: "string \<Rightarrow> string option" where
  "ref_Unquote s =
     (if length s \<ge> 2 \<and> hd s = dquote \<and> last s = dquote \<and>
         \<not> list_ex (\<lambda>c. c = dquote \<or> c = bslash) (butlast (tl s))
      then Some (butlast (tl s)) else None)"

definition ref_Quote :: "string \<Rightarrow> string" where
  "ref_Quote s =
     dquote # concat (map (\<lambda>c. if c = dquote \<or> c = bslash then [bslash, c] else [c]) s) @ [dquote]"

text \<open>
  Insertion sort with the comparison \<open>le\<close> deciding whether the new element goes in front.
\<close>

fun ins_by :: "('a \<Rightarrow> 'a \<Rightarrow> bool) \<Rightarrow> 'a \<Rightarrow> 'a list \<Rightarrow> 'a list" where
  "ins_by le a [] = [a]"
| "ins_by le a (b # bs) = (if le a b then a # b # bs else b # ins_by le a bs)"

definition isort_by :: "('a \<Rightarrow> 'a \<Rightarrow> bool) \<Rightarrow> 'a list \<Rightarrow> 'a list" where
  "isort_by le xs = foldr (ins_by le) xs []"

definition ref_ext :: ext where
  "ref_ext =
     \<lparr>semver_IsValid = ref_IsValid,
      semver_Canonical = (\<lambda>v. v),
      semver_Major = ref_Major,
      ParseGopkgIn = ref_ParseGopkgIn,
      strconv_Unquote = ref_Unquote,
      strconv_Quote = ref_Quote,
      runes = map of_char,
      unicode_IsPrint = (\<lambda>r. 0x20 \<le> r \<and> r \<le> 0x7E),
      filepath_Separator = CHR ''/'',
      sort_Slice = (\<lambda>less. isort_by (\<lambda>a b. \<not> less b a)),
      map_range = (\<lambda>m. m)\<rparr>"


section \<open>The properties, in the words of the specification\<close>

text \<open>
  The final path segment and the explicit-major pattern, the letter v followed by one or
  more digits (spec 4.2).
\<close>

definition final_segment :: "string \<Rightarrow> string" where
  "final_segment p = rev (takeWhile (\<lambda>c. c \<noteq> CHR ''/'') (rev p))"

definition explicit_major :: "string \<Rightarrow> bool" where
  "explicit_major v = (case v of [] \<Rightarrow> False | c # ds \<Rightarrow> c = CHR ''v'' \<and> is_number ds)"

text \<open>
  A statement is accepted when \<open>add\<close> writes no diagnostic for it; the majors agree when
  they are equal, or the required major is v1 and the version's major is v0 (spec 4.1).
\<close>

definition accepted ::
  "ext \<Rightarrow> VersionFixer option \<Rightarrow> File \<Rightarrow> ptr \<Rightarrow> string \<Rightarrow> string list \<Rightarrow> bool" where
  "accepted X fix f line verb args = (fst (snd (File_add X fix f [] line verb args)) = [])"

definition majors_agree :: "string \<Rightarrow> string \<Rightarrow> bool" where
  "majors_agree required actual = (actual = required \<or> required = ''v1'' \<and> actual = ''v0'')"

text \<open>
  A directory-style path begins with \<open>./\<close>, \<open>../\<close>, \<open>/\<close>, their backslash equivalents,
  or a drive-letter prefix (spec 4.5).
\<close>

definition letter :: "char \<Rightarrow> bool" where
  "letter c = (CHR ''A'' \<le> c \<and> c \<le> CHR ''Z'' \<or> CHR ''a'' \<le> c \<and> c \<le> CHR ''z'')"

definition directory_style :: "string \<Rightarrow> bool" where
  "directory_style s =
     (prefix ''./'' s \<or> prefix ''../'' s \<or> prefix ''/'' s \<or>
      prefix [CHR ''.'', bslash] s \<or> prefix [CHR ''.'', CHR ''.'', bslash] s \<or>
      prefix [bslash] s \<or>
      (case s of c # d # r \<Rightarrow> letter c \<and> d = CHR '':'' | _ \<Rightarrow> False))"

text \<open>A statement that \<open>Parse\<close> can look at without a panic: it has a first token.\<close>

fun has_token :: "(ptr \<Rightarrow> Line) \<Rightarrow> Expr \<Rightarrow> bool" where
  "has_token h (ExprLine l) = (Token (h l) \<noteq> [])"
| "has_token h (ExprLineBlock toks start ls) = (toks \<noteq> [])"
| "has_token h (ExprCommentBlock c) = True"

text \<open>The line pointers of a statement and of the whole tree, in the order of the file.\<close>

fun stmt_lines :: "Expr \<Rightarrow> ptr list" where
  "stmt_lines (ExprLine l) = [l]"
| "stmt_lines (ExprLineBlock toks start ls) = ls"
| "stmt_lines (ExprCommentBlock c) = []"

definition tree_lines :: "Expr list \<Rightarrow> ptr list" where
  "tree_lines ss = concat (map stmt_lines ss)"

text \<open>
  The tokens a line holds for a directive: those given, without the verb for a line
  nested in a block.
\<close>

definition line_tokens :: "Line \<Rightarrow> string list \<Rightarrow> bool" where
  "line_tokens ln tokens = (Token ln = (if InBlock ln then tl tokens else tokens))"

text \<open>The Exclude records for a path and version.\<close>

definition excludes_of :: "File \<Rightarrow> string \<Rightarrow> string \<Rightarrow> Exclude list" where
  "excludes_of f path vers =
     filter (\<lambda>x. Path (Mod x) = path \<and> Version (Mod x) = vers) (Exclude f)"

text \<open>
  The Require records for a path that are not tombstoned, that is not blanked to the
  zero value; and the index of the first record for a path, in slice order.
\<close>

definition requires_of :: "File \<Rightarrow> string \<Rightarrow> Require list" where
  "requires_of f path = filter (\<lambda>r. Path (Mod r) = path \<and> r \<noteq> zero_Require) (Require f)"

definition first_for :: "Require list \<Rightarrow> string \<Rightarrow> nat \<Rightarrow> bool" where
  "first_for rs path j =
     (j < length rs \<and> Path (Mod (rs ! j)) = path \<and> (\<forall>k<j. Path (Mod (rs ! k)) \<noteq> path))"

text \<open>The lines that the records for a path point at, in slice order.\<close>

definition lines_for :: "Require list \<Rightarrow> string \<Rightarrow> ptr option list" where
  "lines_for rs path = map Syntax (filter (\<lambda>r. Path (Mod r) = path) rs)"










section \<open>Example files\<close>

definition nil_Line :: Line where
  "nil_Line = \<lparr>Token = [], InBlock = False, Start = 0\<rparr>"

definition empty_File :: File where
  "empty_File =
     \<lparr>Module = None, Require = [], Exclude = [], Replace = [],
      FSyntax = \<lparr>Name = ''go.mod'', Stmt = [], Heap = (\<lambda>_. nil_Line), Next = 0\<rparr>\<rparr>"

text \<open>The tree of a file whose only statement is the line \<open>module\<close>, with no argument.\<close>

definition bare_module_File :: File where
  "bare_module_File =
     \<lparr>Module = None, Require = [], Exclude = [], Replace = [],
      FSyntax = \<lparr>Name = ''go.mod'', Stmt = [ExprLine 0],
                 Heap = (\<lambda>_. nil_Line)(0 := \<lparr>Token = [''module''], InBlock = False, Start = 1\<rparr>),
                 Next = 1\<rparr>\<rparr>"

text \<open>
  The tree of a file with the statement \<open>exclude example.com/a v1.0.0\<close> on its first
  and on its second line.
\<close>

definition dup_exclude_syntax :: FileSyntax where
  "dup_exclude_syntax =
     \<lparr>Name = ''go.mod'', Stmt = [ExprLine 0, ExprLine 1],
      Heap = (\<lambda>_. nil_Line)
        (0 := \<lparr>Token = [''exclude'', ''example.com/a'', ''v1.0.0''], InBlock = False, Start = 1\<rparr>,
         1 := \<lparr>Token = [''exclude'', ''example.com/a'', ''v1.0.0''], InBlock = False, Start = 2\<rparr>),
      Next = 2\<rparr>"

text \<open>
  The decoded file with the statements \<open>require example.com/a v1.0.0\<close> and
  \<open>require example.com/a v1.1.0\<close> on its two lines.
\<close>

definition two_require_File :: File where
  "two_require_File =
     \<lparr>Module = None,
      Require =
        [\<lparr>Mod = \<lparr>Path = ''example.com/a'', Version = ''v1.0.0''\<rparr>, Syntax = Some 0\<rparr>,
         \<lparr>Mod = \<lparr>Path = ''example.com/a'', Version = ''v1.1.0''\<rparr>, Syntax = Some 1\<rparr>],
      Exclude = [], Replace = [],
      FSyntax =
        \<lparr>Name = ''go.mod'', Stmt = [ExprLine 0, ExprLine 1],
         Heap = (\<lambda>_. nil_Line)
           (0 := \<lparr>Token = [''require'', ''example.com/a'', ''v1.0.0''], InBlock = False, Start = 1\<rparr>,
            1 := \<lparr>Token = [''require'', ''example.com/a'', ''v1.1.0''], InBlock = False, Start = 2\<rparr>),
         Next = 2\<rparr>\<rparr>"



section \<open>Strings: basic facts\<close>

lemma LastIndex_nonneg: "(0 \<le> LastIndex s sep) = (sep \<in> set s)"
  by (induction s) (auto simp: Let_def)

lemma LastIndex_notin: "sep \<notin> set s \<Longrightarrow> LastIndex s sep = -1"
  by (induction s) (auto simp: Let_def)

lemma drop_LastIndex:
  "drop (nat (LastIndex p sep + 1)) p = rev (takeWhile (\<lambda>c. c \<noteq> sep) (rev p))"
proof (induction p)
  case Nil
  show ?case by simp
next
  case (Cons c p)
  show ?case
  proof (cases "sep \<in> set p")
    case True
    then have ge: "0 \<le> LastIndex p sep" by (simp add: LastIndex_nonneg)
    then have li: "LastIndex (c # p) sep = LastIndex p sep + 1" by (simp add: Let_def)
    from ge have n: "nat (LastIndex p sep + 1 + 1) = Suc (nat (LastIndex p sep + 1))" by linarith
    from True have "sep \<in> set (rev p)" by simp
    then have tw: "takeWhile (\<lambda>c. c \<noteq> sep) (rev p @ [c]) = takeWhile (\<lambda>c. c \<noteq> sep) (rev p)"
      by (rule takeWhile_append1) simp
    have "drop (nat (LastIndex (c # p) sep + 1)) (c # p) = drop (nat (LastIndex p sep + 1)) p"
      unfolding li n by simp
    also have "\<dots> = rev (takeWhile (\<lambda>c. c \<noteq> sep) (rev p))" by (rule Cons.IH)
    also have "\<dots> = rev (takeWhile (\<lambda>c. c \<noteq> sep) (rev (c # p)))" using tw by simp
    finally show ?thesis .
  next
    case False
    then have li: "LastIndex p sep = -1" by (rule LastIndex_notin)
    from False have tw: "takeWhile (\<lambda>c. c \<noteq> sep) (rev p @ [c]) = rev p @ takeWhile (\<lambda>c. c \<noteq> sep) [c]"
      by (intro takeWhile_append2) auto
    show ?thesis
    proof (cases "c = sep")
      case True
      with li have e: "nat (LastIndex (c # p) sep + 1) = 1" by (simp add: Let_def)
      have r: "rev (takeWhile (\<lambda>c. c \<noteq> sep) (rev (c # p))) = p" using tw True by simp
      show ?thesis unfolding e r by simp
    next
      case False
      with li have e: "nat (LastIndex (c # p) sep + 1) = 0" by (simp add: Let_def)
      have r: "rev (takeWhile (\<lambda>c. c \<noteq> sep) (rev (c # p))) = c # p" using tw False by simp
      show ?thesis unfolding e r by simp
    qed
  qed
qed

lemma list_all_is_digit:
  "list_all (\<lambda>c. \<not> (c < CHR ''0'' \<or> CHR ''9'' < c)) ds = list_all is_digit ds"
  by (induction ds) (auto simp: is_digit_def not_less)

lemma isMajorVersion_explicit_major: "isMajorVersion v = explicit_major v"
proof (cases v)
  case Nil
  then show ?thesis by (simp add: isMajorVersion_def explicit_major_def)
next
  case (Cons c ds)
  show ?thesis
  proof (cases ds)
    case Nil
    with Cons show ?thesis by (simp add: isMajorVersion_def explicit_major_def is_number_def)
  next
    case (Cons d ds')
    with \<open>v = c # ds\<close> list_all_is_digit [of ds] show ?thesis
      by (simp add: isMajorVersion_def explicit_major_def is_number_def)
  qed
qed

section \<open>The required major of a path\<close>

lemma moduleMajorVersion_segment:
  assumes "ParseGopkgIn X p = None"
  shows "moduleMajorVersion X p =
           (if \<not> explicit_major (final_segment p) then Inr ''v1''
            else if final_segment p ! 1 = CHR ''0'' \<or> final_segment p = ''v1''
              then Inl (ErrInvalidVersionNumber (final_segment p))
            else Inr (final_segment p))"
  using assms
  by (simp add: moduleMajorVersion_def Let_def drop_LastIndex isMajorVersion_explicit_major
      final_segment_def)

text \<open>
  Claim C5, as amended. For a path outside the gopkg.in encoding: when the final segment
  does not match the explicit-major pattern the required major is v1; when it matches
  and its first digit is 0 (v0, but also v01 or v007) or it is exactly v1, the path is
  rejected; any other matching segment is the required major.
\<close>

theorem C5_moduleMajorVersion:
  assumes "ParseGopkgIn X p = None"
  shows "moduleMajorVersion X p =
           (if \<not> explicit_major (final_segment p) then Inr ''v1''
            else if final_segment p ! 1 = CHR ''0'' \<or> final_segment p = ''v1''
              then Inl (ErrInvalidVersionNumber (final_segment p))
            else Inr (final_segment p))"
  using assms by (rule moduleMajorVersion_segment)

theorem C5_moduleMajorVersion_witness:
  "ParseGopkgIn ref_ext ''example.com/foo/v2'' = None \<and>
   moduleMajorVersion ref_ext ''example.com/foo/v2'' = Inr ''v2'' \<and>
   moduleMajorVersion ref_ext ''example.com/foo'' = Inr ''v1'' \<and>
   moduleMajorVersion ref_ext ''example.com/foo/v0'' = Inl (ErrInvalidVersionNumber ''v0'') \<and>
   moduleMajorVersion ref_ext ''example.com/foo/v1'' = Inl (ErrInvalidVersionNumber ''v1'')"
proof -
  have h: "\<And>p. \<not> HasPrefix p ''gopkg.in/'' \<Longrightarrow> ParseGopkgIn ref_ext p = None"
    by (simp add: ref_ext_def ref_ParseGopkgIn_def)
  have h1: "ParseGopkgIn ref_ext ''example.com/foo/v2'' = None" by (rule h) (simp add: HasPrefix_def)
  have h2: "ParseGopkgIn ref_ext ''example.com/foo'' = None" by (rule h) (simp add: HasPrefix_def)
  have h3: "ParseGopkgIn ref_ext ''example.com/foo/v0'' = None" by (rule h) (simp add: HasPrefix_def)
  have h4: "ParseGopkgIn ref_ext ''example.com/foo/v1'' = None" by (rule h) (simp add: HasPrefix_def)
  show ?thesis
    using h1 C5_moduleMajorVersion [OF h1] C5_moduleMajorVersion [OF h2]
      C5_moduleMajorVersion [OF h3] C5_moduleMajorVersion [OF h4]
    by (simp add: final_segment_def explicit_major_def is_number_def is_digit_def)
qed

text \<open>
  The claim as the specification words it fails: the segment v01 matches the pattern and
  is neither v0 nor v1, yet the path is rejected.
\<close>

theorem C5_counterexample:
  "ParseGopkgIn ref_ext ''example.com/foo/v01'' = None \<and>
   explicit_major (final_segment ''example.com/foo/v01'') \<and>
   final_segment ''example.com/foo/v01'' \<noteq> ''v0'' \<and>
   final_segment ''example.com/foo/v01'' \<noteq> ''v1'' \<and>
   moduleMajorVersion ref_ext ''example.com/foo/v01'' \<noteq> Inr (final_segment ''example.com/foo/v01'') \<and>
   moduleMajorVersion ref_ext ''example.com/foo/v01'' = Inl (ErrInvalidVersionNumber ''v01'')"
  by (simp add: ref_ext_def ref_ParseGopkgIn_def HasPrefix_def moduleMajorVersion_def Let_def
      isMajorVersion_def final_segment_def explicit_major_def is_number_def is_digit_def)

section \<open>Decoding: what \<open>add\<close> accepts\<close>

lemma HasPrefix_prefix: "HasPrefix s p = prefix p s"
  unfolding HasPrefix_def
  by (metis append_eq_conv_conj prefix_def take_is_prefix)

lemma IsDirectoryPath_directory_style: "IsDirectoryPath ns = directory_style ns"
proof (cases ns)
  case Nil
  then show ?thesis by (simp add: IsDirectoryPath_def directory_style_def HasPrefix_prefix)
next
  case (Cons c r)
  then show ?thesis
    by (cases r) (auto simp: IsDirectoryPath_def directory_style_def HasPrefix_prefix letter_def)
qed

lemma parseString_plain:
  assumes "\<not> ContainsAny s [dquote, squote, bquote]"
  shows "parseString X s = (AutoQuote X s, Inr s)"
proof -
  from assms have "\<not> HasPrefix s [dquote]"
    by (cases s) (auto simp: HasPrefix_def ContainsAny_def)
  with assms show ?thesis by (simp add: parseString_def)
qed

lemma parseVersion_plain:
  assumes "\<not> ContainsAny s [dquote, squote, bquote]" and "semver_IsValid X s"
  shows "parseVersion X path s None = (semver_Canonical X s, Inr (semver_Canonical X s))"
  using assms by (simp add: parseVersion_def parseString_plain)

lemma File_add_require:
  assumes "parseString X a = (a0, Inr s)" and "parseVersion X s b fix = (a1, Inr v)"
    and "moduleMajorVersion X s = Inr v1"
  shows "File_add X fix f errs line ''require'' [a, b] =
           (if majors_agree v1 (semver_Major X v)
            then (f\<lparr>Require := Require f @ [\<lparr>Mod = \<lparr>Path = s, Version = v\<rparr>, Syntax = Some line\<rparr>]\<rparr>,
                  errs, [a0, a1])
            else (f, errs @ [diag f line (InvalidModule s v1 (semver_Major X v) v)], [a0, a1]))"
  using assms by (auto simp: File_add_def Let_def majors_agree_def)

lemma File_add_exclude:
  assumes "parseString X a = (a0, Inr s)" and "parseVersion X s b fix = (a1, Inr v)"
    and "moduleMajorVersion X s = Inr v1"
  shows "File_add X fix f errs line ''exclude'' [a, b] =
           (if majors_agree v1 (semver_Major X v)
            then (f\<lparr>Exclude := Exclude f @ [\<lparr>Mod = \<lparr>Path = s, Version = v\<rparr>, Syntax = Some line\<rparr>]\<rparr>,
                  errs, [a0, a1])
            else (f, errs @ [diag f line (InvalidModule s v1 (semver_Major X v) v)], [a0, a1]))"
  using assms by (auto simp: File_add_def Let_def majors_agree_def)

lemma accepted_require_only_if:
  assumes "verb = ''require'' \<or> verb = ''exclude''" and "accepted X fix f line verb args"
  shows "\<exists>a b a0 a1 s v v1. args = [a, b] \<and> parseString X a = (a0, Inr s) \<and>
           parseVersion X s b fix = (a1, Inr v) \<and> moduleMajorVersion X s = Inr v1 \<and>
           majors_agree v1 (semver_Major X v)"
proof -
  from assms(2) have "length args = 2"
    using assms(1) by (auto simp: accepted_def File_add_def split: if_splits)
  then obtain a b where args: "args = [a, b]"
    by (cases args; cases "tl args") auto
  obtain a0 r where ps: "parseString X a = (a0, r)" by (cases "parseString X a")
  show ?thesis
  proof (cases r)
    case (Inl e)
    with assms ps args show ?thesis by (auto simp: accepted_def File_add_def)
  next
    case (Inr s)
    obtain a1 r1 where pv: "parseVersion X s b fix = (a1, r1)" by (cases "parseVersion X s b fix")
    show ?thesis
    proof (cases r1)
      case (Inl e)
      with assms ps args Inr pv show ?thesis by (auto simp: accepted_def File_add_def)
    next
      case vInr: (Inr v)
      show ?thesis
      proof (cases "moduleMajorVersion X s")
        case (Inl e)
        with assms ps args Inr pv vInr show ?thesis by (auto simp: accepted_def File_add_def)
      next
        case mInr: (Inr v1)
        from assms(1) have "majors_agree v1 (semver_Major X v)"
        proof
          assume "verb = ''require''"
          with assms(2) args show ?thesis
            using File_add_require [OF ps [unfolded Inr] pv [unfolded vInr] mInr, of f "[]" line]
            by (auto simp: accepted_def split: if_splits)
        next
          assume "verb = ''exclude''"
          with assms(2) args show ?thesis
            using File_add_exclude [OF ps [unfolded Inr] pv [unfolded vInr] mInr, of f "[]" line]
            by (auto simp: accepted_def split: if_splits)
        qed
        with args ps Inr pv vInr mInr show ?thesis by blast
      qed
    qed
  qed
qed

lemma implicit_v1:
  assumes "ParseGopkgIn X s = None"
  shows "(moduleMajorVersion X s = Inr ''v1'') = (\<not> explicit_major (final_segment s))"
  using moduleMajorVersion_segment [OF assms] by auto

lemma accepted_require_iff:
  assumes "verb = ''require'' \<or> verb = ''exclude''"
    and "parseString X a = (a0, Inr s)" and "parseVersion X s b fix = (a1, Inr v)"
    and "moduleMajorVersion X s = Inr v1"
  shows "accepted X fix f line verb [a, b] = majors_agree v1 (semver_Major X v)"
  using assms(1)
proof
  assume "verb = ''require''"
  then show ?thesis
    using File_add_require [OF assms(2-4), of f "[]" line] by (simp add: accepted_def)
next
  assume "verb = ''exclude''"
  then show ?thesis
    using File_add_exclude [OF assms(2-4), of f "[]" line] by (simp add: accepted_def)
qed

lemma accepted_plain:
  assumes "verb = ''require'' \<or> verb = ''exclude''"
    and "\<not> ContainsAny p [dquote, squote, bquote]" and "\<not> ContainsAny b [dquote, squote, bquote]"
    and "ParseGopkgIn X p = None" and "semver_IsValid X b"
  shows "accepted X None f line verb [p, b] =
           (case moduleMajorVersion X p of
              Inl e \<Rightarrow> False
            | Inr v1 \<Rightarrow> majors_agree v1 (semver_Major X (semver_Canonical X b)))"
proof (cases "moduleMajorVersion X p")
  case (Inl e)
  have "\<not> accepted X None f line verb [p, b]"
  proof
    assume "accepted X None f line verb [p, b]"
    from accepted_require_only_if [OF assms(1) this] Inl parseString_plain [OF assms(2), of X]
    show False by auto
  qed
  with Inl show ?thesis by simp
next
  case (Inr v1)
  from accepted_require_iff [OF assms(1) parseString_plain [OF assms(2)]
      parseVersion_plain [OF assms(3,5)] Inr]
  show ?thesis using Inr by simp
qed

lemma required_v1:
  "(moduleMajorVersion X s = Inr ''v1'') =
     (ParseGopkgIn X s = Some ''v1'' \<or>
      ParseGopkgIn X s = None \<and> \<not> explicit_major (final_segment s))"
proof (cases "ParseGopkgIn X s")
  case None
  with implicit_v1 [OF None] show ?thesis by simp
next
  case (Some m)
  then show ?thesis by (simp add: moduleMajorVersion_def)
qed

section \<open>Claim C1\<close>

text \<open>
  Claim C1, as amended. A require or exclude directive is accepted only when its two
  arguments parse to a path and a canonical version whose semver major agrees with the
  path's required major: the two are equal, or the required major is v1 and the
  version's major is v0. When the arguments parse, that agreement is also enough. The
  required major is v1 for the paths outside the gopkg.in encoding that have no explicit
  major suffix, and for the gopkg.in paths whose encoded major is v1; both accept v0
  versions. For a semver package that finds the versions below valid with the given
  majors: example.com/foo/v2 rejects v1.9.0 and accepts v2.0.0, and example.com/foo
  accepts both v0.9.0 and v1.0.0.
\<close>

theorem C1_require_major:
  assumes "verb = ''require'' \<or> verb = ''exclude''"
  shows
    "(accepted X fix f line verb args \<longrightarrow>
        (\<exists>a b a0 a1 s v v1. args = [a, b] \<and> parseString X a = (a0, Inr s) \<and>
           parseVersion X s b fix = (a1, Inr v) \<and> moduleMajorVersion X s = Inr v1 \<and>
           majors_agree v1 (semver_Major X v))) \<and>
     (\<forall>a b a0 a1 s v v1.
        parseString X a = (a0, Inr s) \<and> parseVersion X s b fix = (a1, Inr v) \<and>
        moduleMajorVersion X s = Inr v1 \<longrightarrow>
        accepted X fix f line verb [a, b] = majors_agree v1 (semver_Major X v)) \<and>
     (\<forall>s. (moduleMajorVersion X s = Inr ''v1'') =
        (ParseGopkgIn X s = Some ''v1'' \<or>
         ParseGopkgIn X s = None \<and> \<not> explicit_major (final_segment s))) \<and>
     (\<forall>a b a0 a1 s v.
        parseString X a = (a0, Inr s) \<and> parseVersion X s b fix = (a1, Inr v) \<and>
        ParseGopkgIn X s = Some ''v1'' \<and> semver_Major X v = ''v0'' \<longrightarrow>
        accepted X fix f line verb [a, b]) \<and>
     (ParseGopkgIn X ''example.com/foo/v2'' = None \<and> semver_IsValid X ''v1.9.0'' \<and>
      semver_Major X (semver_Canonical X ''v1.9.0'') = ''v1'' \<longrightarrow>
        \<not> accepted X None f line verb [''example.com/foo/v2'', ''v1.9.0'']) \<and>
     (ParseGopkgIn X ''example.com/foo/v2'' = None \<and> semver_IsValid X ''v2.0.0'' \<and>
      semver_Major X (semver_Canonical X ''v2.0.0'') = ''v2'' \<longrightarrow>
        accepted X None f line verb [''example.com/foo/v2'', ''v2.0.0'']) \<and>
     (ParseGopkgIn X ''example.com/foo'' = None \<and> semver_IsValid X ''v0.9.0'' \<and>
      semver_Major X (semver_Canonical X ''v0.9.0'') = ''v0'' \<longrightarrow>
        accepted X None f line verb [''example.com/foo'', ''v0.9.0'']) \<and>
     (ParseGopkgIn X ''example.com/foo'' = None \<and> semver_IsValid X ''v1.0.0'' \<and>
      semver_Major X (semver_Canonical X ''v1.0.0'') = ''v1'' \<longrightarrow>
        accepted X None f line verb [''example.com/foo'', ''v1.0.0''])"
proof -
  have q: "\<And>s. list_all (\<lambda>c. c \<notin> {dquote, squote, bquote}) s
              \<Longrightarrow> \<not> ContainsAny s [dquote, squote, bquote]"
    by (auto simp: ContainsAny_def list_ex_iff list_all_iff)
  have q1: "\<not> ContainsAny ''example.com/foo/v2'' [dquote, squote, bquote]"
    by (rule q) (simp add: dquote_def squote_def bquote_def)
  have q2: "\<not> ContainsAny ''example.com/foo'' [dquote, squote, bquote]"
    by (rule q) (simp add: dquote_def squote_def bquote_def)
  have q3: "\<not> ContainsAny ''v1.9.0'' [dquote, squote, bquote]"
    "\<not> ContainsAny ''v2.0.0'' [dquote, squote, bquote]"
    "\<not> ContainsAny ''v0.9.0'' [dquote, squote, bquote]"
    "\<not> ContainsAny ''v1.0.0'' [dquote, squote, bquote]"
    by (rule q, simp add: dquote_def squote_def bquote_def)+
  have m2: "ParseGopkgIn X ''example.com/foo/v2'' = None
              \<Longrightarrow> moduleMajorVersion X ''example.com/foo/v2'' = Inr ''v2''"
    by (simp add: moduleMajorVersion_segment final_segment_def explicit_major_def
        is_number_def is_digit_def)
  have m1: "ParseGopkgIn X ''example.com/foo'' = None
              \<Longrightarrow> moduleMajorVersion X ''example.com/foo'' = Inr ''v1''"
    by (simp add: moduleMajorVersion_segment final_segment_def explicit_major_def
        is_number_def is_digit_def)
  have a: "accepted X fix f line verb args \<longrightarrow>
        (\<exists>a b a0 a1 s v v1. args = [a, b] \<and> parseString X a = (a0, Inr s) \<and>
           parseVersion X s b fix = (a1, Inr v) \<and> moduleMajorVersion X s = Inr v1 \<and>
           majors_agree v1 (semver_Major X v))"
    using accepted_require_only_if [OF assms] by blast
  have b: "\<forall>a b a0 a1 s v v1.
        parseString X a = (a0, Inr s) \<and> parseVersion X s b fix = (a1, Inr v) \<and>
        moduleMajorVersion X s = Inr v1 \<longrightarrow>
        accepted X fix f line verb [a, b] = majors_agree v1 (semver_Major X v)"
    using accepted_require_iff [OF assms] by blast
  have c: "\<forall>s. (moduleMajorVersion X s = Inr ''v1'') =
        (ParseGopkgIn X s = Some ''v1'' \<or>
         ParseGopkgIn X s = None \<and> \<not> explicit_major (final_segment s))"
    using required_v1 by blast
  have g: "\<forall>a b a0 a1 s v.
        parseString X a = (a0, Inr s) \<and> parseVersion X s b fix = (a1, Inr v) \<and>
        ParseGopkgIn X s = Some ''v1'' \<and> semver_Major X v = ''v0'' \<longrightarrow>
        accepted X fix f line verb [a, b]"
  proof (intro allI impI, elim conjE)
    fix a b a0 a1 s v
    assume h: "parseString X a = (a0, Inr s)" "parseVersion X s b fix = (a1, Inr v)"
      and gp: "ParseGopkgIn X s = Some ''v1''" and v0: "semver_Major X v = ''v0''"
    from gp have m: "moduleMajorVersion X s = Inr ''v1''" by (simp add: moduleMajorVersion_def)
    from accepted_require_iff [OF assms h m, of f line] v0
    show "accepted X fix f line verb [a, b]" by (simp add: majors_agree_def)
  qed
  have e1: "ParseGopkgIn X ''example.com/foo/v2'' = None \<and> semver_IsValid X ''v1.9.0'' \<and>
      semver_Major X (semver_Canonical X ''v1.9.0'') = ''v1'' \<longrightarrow>
        \<not> accepted X None f line verb [''example.com/foo/v2'', ''v1.9.0'']"
    using accepted_plain [OF assms q1 q3(1), of X f line] m2
    by (auto simp: majors_agree_def)
  have e2: "ParseGopkgIn X ''example.com/foo/v2'' = None \<and> semver_IsValid X ''v2.0.0'' \<and>
      semver_Major X (semver_Canonical X ''v2.0.0'') = ''v2'' \<longrightarrow>
        accepted X None f line verb [''example.com/foo/v2'', ''v2.0.0'']"
    using accepted_plain [OF assms q1 q3(2), of X f line] m2
    by (auto simp: majors_agree_def)
  have e3: "ParseGopkgIn X ''example.com/foo'' = None \<and> semver_IsValid X ''v0.9.0'' \<and>
      semver_Major X (semver_Canonical X ''v0.9.0'') = ''v0'' \<longrightarrow>
        accepted X None f line verb [''example.com/foo'', ''v0.9.0'']"
    using accepted_plain [OF assms q2 q3(3), of X f line] m1
    by (auto simp: majors_agree_def)
  have e4: "ParseGopkgIn X ''example.com/foo'' = None \<and> semver_IsValid X ''v1.0.0'' \<and>
      semver_Major X (semver_Canonical X ''v1.0.0'') = ''v1'' \<longrightarrow>
        accepted X None f line verb [''example.com/foo'', ''v1.0.0'']"
    using accepted_plain [OF assms q2 q3(4), of X f line] m1
    by (auto simp: majors_agree_def)
  from a b c g e1 e2 e3 e4 show ?thesis by (intro conjI)
qed

lemma ref_ext_plain_path:
  "\<not> HasPrefix p ''gopkg.in/'' \<Longrightarrow> ParseGopkgIn ref_ext p = None"
  by (simp add: ref_ext_def ref_ParseGopkgIn_def)

lemma ref_ext_versions:
  "semver_IsValid ref_ext ''v1.9.0''" "semver_Major ref_ext (semver_Canonical ref_ext ''v1.9.0'') = ''v1''"
  "semver_IsValid ref_ext ''v2.0.0''" "semver_Major ref_ext (semver_Canonical ref_ext ''v2.0.0'') = ''v2''"
  "semver_IsValid ref_ext ''v0.9.0''" "semver_Major ref_ext (semver_Canonical ref_ext ''v0.9.0'') = ''v0''"
  "semver_IsValid ref_ext ''v1.0.0''" "semver_Major ref_ext (semver_Canonical ref_ext ''v1.0.0'') = ''v1''"
  by (simp_all add: ref_ext_def ref_IsValid_def ref_Major_def is_number_def is_digit_def)

theorem C1_require_major_witness:
  "\<not> accepted ref_ext None empty_File 0 ''require'' [''example.com/foo/v2'', ''v1.9.0''] \<and>
   accepted ref_ext None empty_File 0 ''require'' [''example.com/foo/v2'', ''v2.0.0''] \<and>
   accepted ref_ext None empty_File 0 ''require'' [''example.com/foo'', ''v0.9.0''] \<and>
   accepted ref_ext None empty_File 0 ''require'' [''example.com/foo'', ''v1.0.0'']"
proof -
  have v: "''require'' = ''require'' \<or> ''require'' = ''exclude''" by simp
  have p1: "ParseGopkgIn ref_ext ''example.com/foo/v2'' = None"
    by (rule ref_ext_plain_path) (simp add: HasPrefix_def)
  have p2: "ParseGopkgIn ref_ext ''example.com/foo'' = None"
    by (rule ref_ext_plain_path) (simp add: HasPrefix_def)
  from C1_require_major [OF v, of ref_ext None empty_File 0 "[]"] p1 p2 ref_ext_versions
  show ?thesis by blast
qed

text \<open>
  The claim as the specification words it fails: the path gopkg.in/yaml.v1 carries its
  major explicitly, in the dotted encoding, and the version v0.9.0 is accepted for it.
\<close>

theorem C1_counterexample:
  "ParseGopkgIn ref_ext ''gopkg.in/yaml.v1'' = Some ''v1'' \<and>
   moduleMajorVersion ref_ext ''gopkg.in/yaml.v1'' = Inr ''v1'' \<and>
   semver_Major ref_ext (semver_Canonical ref_ext ''v0.9.0'') = ''v0'' \<and>
   accepted ref_ext None empty_File 0 ''require'' [''gopkg.in/yaml.v1'', ''v0.9.0'']"
proof -
  have v: "''require'' = ''require'' \<or> ''require'' = ''exclude''" by simp
  have gp: "ParseGopkgIn ref_ext ''gopkg.in/yaml.v1'' = Some ''v1''"
    by (simp add: ref_ext_def ref_ParseGopkgIn_def HasPrefix_def ref_dotV_def Let_def is_digit_def)
  then have m: "moduleMajorVersion ref_ext ''gopkg.in/yaml.v1'' = Inr ''v1''"
    by (simp add: moduleMajorVersion_def)
  have qp: "\<not> ContainsAny ''gopkg.in/yaml.v1'' [dquote, squote, bquote]"
    by (simp add: ContainsAny_def dquote_def squote_def bquote_def)
  have qv: "\<not> ContainsAny ''v0.9.0'' [dquote, squote, bquote]"
    by (simp add: ContainsAny_def dquote_def squote_def bquote_def)
  from accepted_require_iff [OF v parseString_plain [OF qp]
      parseVersion_plain [OF qv ref_ext_versions(5)] m, of empty_File 0]
    ref_ext_versions(6)
  have "accepted ref_ext None empty_File 0 ''require'' [''gopkg.in/yaml.v1'', ''v0.9.0'']"
    by (simp add: majors_agree_def)
  with gp m ref_ext_versions(6) show ?thesis by simp
qed

section \<open>Claim C9\<close>

lemma File_add_replace_left:
  assumes "parseString X a = (a0, Inr s)" and "parseVersion X s b fix = (a1, Inr v)"
    and "moduleMajorVersion X s = Inr v1" and "majors_agree v1 (semver_Major X v)"
    and "parseString X c = (a3, Inr ns)"
  shows "File_add X fix f errs line ''replace'' [a, b, ''=>'', c] =
           (if \<not> IsDirectoryPath ns then
              (f, errs @ [diag f line ReplacementNotDirectory], [a0, a1, ''=>'', a3])
            else if filepath_Separator X = CHR ''/'' \<and> Contains ns [bslash] then
              (f, errs @ [diag f line ReplacementWindowsPath], [a0, a1, ''=>'', a3])
            else
              (f\<lparr>Replace := Replace f @
                  [\<lparr>Old = \<lparr>Path = s, Version = v\<rparr>, New = \<lparr>Path = ns, Version = []\<rparr>,
                    RSyntax = Some line\<rparr>]\<rparr>,
               errs, [a0, a1, ''=>'', a3]))"
  using assms by (auto simp: File_add_def Let_def majors_agree_def)

lemma File_add_replace_left5:
  assumes "parseString X a = (a0, Inr s)" and "parseVersion X s b fix = (a1, Inr v)"
    and "moduleMajorVersion X s = Inr v1" and "majors_agree v1 (semver_Major X v)"
    and "parseString X c = (a3, Inr ns)" and "parseVersion X ns d fix = (a4, r)"
  shows "File_add X fix f errs line ''replace'' [a, b, ''=>'', c, d] =
           (case r of
              Inl e \<Rightarrow>
                (f, errs @ [diag f line (InvalidModuleVersion d e)], [a0, a1, ''=>'', a3, a4])
            | Inr nv \<Rightarrow>
                if IsDirectoryPath ns then
                  (f, errs @ [diag f line (ReplacementDirectoryVersion ns)],
                   [a0, a1, ''=>'', a3, a4])
                else
                  (f\<lparr>Replace := Replace f @
                      [\<lparr>Old = \<lparr>Path = s, Version = v\<rparr>, New = \<lparr>Path = ns, Version = nv\<rparr>,
                        RSyntax = Some line\<rparr>]\<rparr>,
                   errs, [a0, a1, ''=>'', a3, a4]))"
  using assms by (auto simp: File_add_def Let_def majors_agree_def split: sum.splits)

lemma accepted_replace_only_if:
  assumes "accepted X fix f line ''replace'' args"
  shows "(length args = 4 \<or> length args = 5) \<and>
         (\<exists>a3 ns. parseString X (args ! 3) = (a3, Inr ns) \<and>
            (length args = 4 \<longrightarrow> IsDirectoryPath ns) \<and>
            (length args = 5 \<longrightarrow>
               \<not> IsDirectoryPath ns \<and> (\<exists>a4 nv. parseVersion X ns (args ! 4) fix = (a4, Inr nv))))"
  using assms
  by (auto simp: accepted_def File_add_def Let_def split: if_splits prod.splits sum.splits)

lemma quote_free:
  "list_all (\<lambda>c. c \<notin> {dquote, squote, bquote}) s \<Longrightarrow> \<not> ContainsAny s [dquote, squote, bquote]"
  by (auto simp: ContainsAny_def list_ex_iff list_all_iff)

text \<open>
  Claim C9. An accepted replace directive with 4 arguments has a directory-style right
  side; an accepted one with 5 arguments has a right side that is not directory-style
  and a 5th argument that \<open>parseVersion\<close> validates. When the left side is valid, a
  4-argument directive is accepted exactly for a directory-style right side that is not
  a Windows path on a system whose separator is the slash, and a 5-argument directive
  exactly when the version is valid and the right side is not directory-style. The
  right side \<open>example.com/bar\<close> without a version is rejected; \<open>./local\<close> is accepted.
\<close>

theorem C9_replace_right_side:
  "(accepted X fix f line ''replace'' args \<and> length args = 4 \<longrightarrow>
      (\<exists>a3 ns. parseString X (args ! 3) = (a3, Inr ns) \<and> directory_style ns)) \<and>
   (accepted X fix f line ''replace'' args \<and> length args = 5 \<longrightarrow>
      (\<exists>a3 ns a4 nv. parseString X (args ! 3) = (a3, Inr ns) \<and>
         parseVersion X ns (args ! 4) fix = (a4, Inr nv) \<and> \<not> directory_style ns)) \<and>
   (\<forall>a b c a0 a1 a3 s v v1 ns.
      parseString X a = (a0, Inr s) \<and> parseVersion X s b fix = (a1, Inr v) \<and>
      moduleMajorVersion X s = Inr v1 \<and> majors_agree v1 (semver_Major X v) \<and>
      parseString X c = (a3, Inr ns) \<longrightarrow>
      accepted X fix f line ''replace'' [a, b, ''=>'', c] =
        (directory_style ns \<and> \<not> (filepath_Separator X = CHR ''/'' \<and> Contains ns [bslash]))) \<and>
   (\<forall>a b c d a0 a1 a3 a4 s v v1 ns r.
      parseString X a = (a0, Inr s) \<and> parseVersion X s b fix = (a1, Inr v) \<and>
      moduleMajorVersion X s = Inr v1 \<and> majors_agree v1 (semver_Major X v) \<and>
      parseString X c = (a3, Inr ns) \<and> parseVersion X ns d fix = (a4, r) \<longrightarrow>
      accepted X fix f line ''replace'' [a, b, ''=>'', c, d] =
        ((\<exists>nv. r = Inr nv) \<and> \<not> directory_style ns)) \<and>
   \<not> accepted X fix f line ''replace'' [''example.com/foo'', ''v1.0.0'', ''=>'', ''example.com/bar''] \<and>
   (ParseGopkgIn X ''example.com/foo'' = None \<and> semver_IsValid X ''v1.0.0'' \<and>
    semver_Major X (semver_Canonical X ''v1.0.0'') = ''v1'' \<longrightarrow>
      accepted X None f line ''replace'' [''example.com/foo'', ''v1.0.0'', ''=>'', ''./local''])"
proof -
  have c1: "accepted X fix f line ''replace'' args \<and> length args = 4 \<longrightarrow>
      (\<exists>a3 ns. parseString X (args ! 3) = (a3, Inr ns) \<and> directory_style ns)"
    using accepted_replace_only_if [of X "fix" f line args]
    by (auto simp: IsDirectoryPath_directory_style)
  have c2: "accepted X fix f line ''replace'' args \<and> length args = 5 \<longrightarrow>
      (\<exists>a3 ns a4 nv. parseString X (args ! 3) = (a3, Inr ns) \<and>
         parseVersion X ns (args ! 4) fix = (a4, Inr nv) \<and> \<not> directory_style ns)"
    using accepted_replace_only_if [of X "fix" f line args]
    by (auto simp: IsDirectoryPath_directory_style)
  have c3: "\<forall>a b c a0 a1 a3 s v v1 ns.
      parseString X a = (a0, Inr s) \<and> parseVersion X s b fix = (a1, Inr v) \<and>
      moduleMajorVersion X s = Inr v1 \<and> majors_agree v1 (semver_Major X v) \<and>
      parseString X c = (a3, Inr ns) \<longrightarrow>
      accepted X fix f line ''replace'' [a, b, ''=>'', c] =
        (directory_style ns \<and> \<not> (filepath_Separator X = CHR ''/'' \<and> Contains ns [bslash]))"
  proof (intro allI impI, elim conjE)
    fix a b c a0 a1 a3 s v v1 ns
    assume h: "parseString X a = (a0, Inr s)" "parseVersion X s b fix = (a1, Inr v)"
      "moduleMajorVersion X s = Inr v1" "majors_agree v1 (semver_Major X v)"
      "parseString X c = (a3, Inr ns)"
    show "accepted X fix f line ''replace'' [a, b, ''=>'', c] =
        (directory_style ns \<and> \<not> (filepath_Separator X = CHR ''/'' \<and> Contains ns [bslash]))"
      unfolding accepted_def File_add_replace_left [OF h]
      by (simp add: IsDirectoryPath_directory_style)
  qed
  have c4: "\<forall>a b c d a0 a1 a3 a4 s v v1 ns r.
      parseString X a = (a0, Inr s) \<and> parseVersion X s b fix = (a1, Inr v) \<and>
      moduleMajorVersion X s = Inr v1 \<and> majors_agree v1 (semver_Major X v) \<and>
      parseString X c = (a3, Inr ns) \<and> parseVersion X ns d fix = (a4, r) \<longrightarrow>
      accepted X fix f line ''replace'' [a, b, ''=>'', c, d] =
        ((\<exists>nv. r = Inr nv) \<and> \<not> directory_style ns)"
  proof (intro allI impI, elim conjE)
    fix a b c d a0 a1 a3 a4 s v v1 ns r
    assume h: "parseString X a = (a0, Inr s)" "parseVersion X s b fix = (a1, Inr v)"
      "moduleMajorVersion X s = Inr v1" "majors_agree v1 (semver_Major X v)"
      "parseString X c = (a3, Inr ns)" "parseVersion X ns d fix = (a4, r)"
    show "accepted X fix f line ''replace'' [a, b, ''=>'', c, d] =
        ((\<exists>nv. r = Inr nv) \<and> \<not> directory_style ns)"
      unfolding accepted_def File_add_replace_left5 [OF h]
      by (cases r) (simp_all add: IsDirectoryPath_directory_style)
  qed
  have qb: "\<not> ContainsAny ''example.com/bar'' [dquote, squote, bquote]"
    by (rule quote_free) (simp add: dquote_def squote_def bquote_def)
  have c5: "\<not> accepted X fix f line ''replace''
              [''example.com/foo'', ''v1.0.0'', ''=>'', ''example.com/bar'']"
  proof
    assume "accepted X fix f line ''replace''
              [''example.com/foo'', ''v1.0.0'', ''=>'', ''example.com/bar'']"
    from accepted_replace_only_if [OF this] parseString_plain [OF qb, of X]
    have "IsDirectoryPath ''example.com/bar''" by simp
    then show False by (simp add: IsDirectoryPath_def HasPrefix_def bslash_def)
  qed
  have ql: "\<not> ContainsAny ''./local'' [dquote, squote, bquote]"
    by (rule quote_free) (simp add: dquote_def squote_def bquote_def)
  have qf: "\<not> ContainsAny ''example.com/foo'' [dquote, squote, bquote]"
    by (rule quote_free) (simp add: dquote_def squote_def bquote_def)
  have qv: "\<not> ContainsAny ''v1.0.0'' [dquote, squote, bquote]"
    by (rule quote_free) (simp add: dquote_def squote_def bquote_def)
  have c6: "ParseGopkgIn X ''example.com/foo'' = None \<and> semver_IsValid X ''v1.0.0'' \<and>
    semver_Major X (semver_Canonical X ''v1.0.0'') = ''v1'' \<longrightarrow>
      accepted X None f line ''replace'' [''example.com/foo'', ''v1.0.0'', ''=>'', ''./local'']"
  proof (intro impI, elim conjE)
    assume g: "ParseGopkgIn X ''example.com/foo'' = None" and iv: "semver_IsValid X ''v1.0.0''"
      and mj: "semver_Major X (semver_Canonical X ''v1.0.0'') = ''v1''"
    have m: "moduleMajorVersion X ''example.com/foo'' = Inr ''v1''"
      using g by (simp add: moduleMajorVersion_segment final_segment_def explicit_major_def
          is_number_def is_digit_def)
    have ag: "majors_agree ''v1'' (semver_Major X (semver_Canonical X ''v1.0.0''))"
      using mj by (simp add: majors_agree_def)
    have d: "IsDirectoryPath ''./local''" by (simp add: IsDirectoryPath_def HasPrefix_def)
    have nb: "\<not> Contains ''./local'' [bslash]" by (simp add: HasPrefix_def bslash_def)
    show "accepted X None f line ''replace'' [''example.com/foo'', ''v1.0.0'', ''=>'', ''./local'']"
      unfolding accepted_def
        File_add_replace_left [OF parseString_plain [OF qf] parseVersion_plain [OF qv iv] m ag
          parseString_plain [OF ql]]
      using d nb by simp
  qed
  from c1 c2 c3 c4 c5 c6 show ?thesis by (intro conjI)
qed

theorem C9_replace_right_side_witness:
  "accepted ref_ext None empty_File 0 ''replace''
     [''example.com/foo'', ''v1.0.0'', ''=>'', ''./local''] \<and>
   parseString ref_ext ''./local'' = (''./local'', Inr ''./local'') \<and>
   directory_style ''./local'' \<and>
   \<not> accepted ref_ext None empty_File 0 ''replace''
     [''example.com/foo'', ''v1.0.0'', ''=>'', ''example.com/bar'']"
proof -
  have p: "ParseGopkgIn ref_ext ''example.com/foo'' = None"
    by (rule ref_ext_plain_path) (simp add: HasPrefix_def)
  have ps: "parseString ref_ext ''./local'' = (''./local'', Inr ''./local'')"
    by (simp add: parseString_def HasPrefix_def ContainsAny_def AutoQuote_def MustQuote_def
        ref_ext_def dquote_def squote_def bquote_def)
  note c = C9_replace_right_side [of ref_ext None empty_File 0
      "[''example.com/foo'', ''v1.0.0'', ''=>'', ''./local'']"]
  from c p ref_ext_versions(7,8)
  have a: "accepted ref_ext None empty_File 0 ''replace''
     [''example.com/foo'', ''v1.0.0'', ''=>'', ''./local'']" by blast
  with c have "\<exists>a3 ns. parseString ref_ext ''./local'' = (a3, Inr ns) \<and> directory_style ns"
    by simp
  with ps have d: "directory_style ''./local''" by simp
  from c have "\<not> accepted ref_ext None empty_File 0 ''replace''
     [''example.com/foo'', ''v1.0.0'', ''=>'', ''example.com/bar'']" by blast
  with a ps d show ?thesis by blast
qed

section \<open>Claim C6\<close>

lemma File_add_prefix:
  "File_add X fix f errs line verb args = (f', errs', args') \<Longrightarrow> prefix errs errs'"
  by (auto simp: File_add_def Let_def split: if_splits prod.splits sum.splits)

lemma File_add_rejected:
  assumes "File_add X fix f errs line verb args = (f', errs', args')" and "errs' \<noteq> errs"
  shows "Require f' = Require f \<and> Exclude f' = Exclude f \<and> Replace f' = Replace f \<and>
         Module f' =
           (if verb = ''module'' \<and> Module f = None
            then Some \<lparr>Mod = \<lparr>Path = [], Version = []\<rparr>, Syntax = Some line\<rparr>
            else Module f)"
  using assms
  by (auto simp: File_add_def Let_def split: if_splits prod.splits sum.splits)

lemma File_add_module_repeated:
  "Module f \<noteq> None \<Longrightarrow>
     File_add X fix f errs line ''module'' args = (f, errs @ [diag f line RepeatedModule], args)"
  by (simp add: File_add_def)

lemma File_add_module_usage:
  "Module f = None \<Longrightarrow> length args \<noteq> 1 \<Longrightarrow>
     File_add X fix f errs line ''module'' args =
       (f\<lparr>Module := Some \<lparr>Mod = \<lparr>Path = [], Version = []\<rparr>, Syntax = Some line\<rparr>\<rparr>,
        errs @ [diag f line UsageModule], args)"
  by (simp add: File_add_def Let_def)

lemma File_add_module_quoting:
  "Module f = None \<Longrightarrow> parseString X a = (a0, Inl e) \<Longrightarrow>
     File_add X fix f errs line ''module'' [a] =
       (f\<lparr>Module := Some \<lparr>Mod = \<lparr>Path = [], Version = []\<rparr>, Syntax = Some line\<rparr>\<rparr>,
        errs @ [diag f line (InvalidQuotedString e)], [a0])"
  by (simp add: File_add_def Let_def)

lemma File_add_module_accepted:
  "Module f = None \<Longrightarrow> parseString X a = (a0, Inr s) \<Longrightarrow>
     File_add X fix f errs line ''module'' [a] =
       (f\<lparr>Module := Some \<lparr>Mod = \<lparr>Path = s, Version = []\<rparr>, Syntax = Some line\<rparr>\<rparr>, errs, [a0])"
  by (simp add: File_add_def Let_def)

lemma File_add_frame:
  "File_add X fix f errs line verb args = (f', errs', args') \<Longrightarrow>
     FSyntax f' = FSyntax f \<and> length args' = length args"
  by (auto simp: File_add_def Let_def split: if_splits prod.splits sum.splits)

lemma Parse_lines_prefix:
  "Parse_lines X fix verb ls (f, errs) = (f', errs') \<Longrightarrow> prefix errs errs'"
proof (induction ls arbitrary: f errs)
  case Nil
  then show ?case by simp
next
  case (Cons l ls)
  obtain f1 errs1 args1
    where a: "File_add X fix f errs l verb (Token (Heap (FSyntax f) l)) = (f1, errs1, args1)"
    by (cases "File_add X fix f errs l verb (Token (Heap (FSyntax f) l))")
  with Cons.prems have "Parse_lines X fix verb ls (set_Token f1 l args1, errs1) = (f', errs')"
    by simp
  from Cons.IH [OF this] File_add_prefix [OF a] show ?case
    by (rule prefix_order.trans [rotated])
qed

lemma Parse_lines_empty_tokens:
  "Parse_lines X fix verb ls (f, errs) = (f', errs') \<Longrightarrow>
     (Token (Heap (FSyntax f') k) = []) = (Token (Heap (FSyntax f) k) = [])"
proof (induction ls arbitrary: f errs)
  case Nil
  then show ?case by simp
next
  case (Cons l ls)
  obtain f1 errs1 args1
    where a: "File_add X fix f errs l verb (Token (Heap (FSyntax f) l)) = (f1, errs1, args1)"
    by (cases "File_add X fix f errs l verb (Token (Heap (FSyntax f) l))")
  with Cons.prems have "Parse_lines X fix verb ls (set_Token f1 l args1, errs1) = (f', errs')"
    by simp
  from Cons.IH [OF this] File_add_frame [OF a] show ?case
    by (auto simp: set_Token_def)
qed

lemma Parse_stmt_prefix:
  "Parse_stmt X fix x (f, errs) = Some (f', errs') \<Longrightarrow> prefix errs errs'"
proof (cases x)
  case (ExprLine l)
  assume "Parse_stmt X fix x (f, errs) = Some (f', errs')"
  with ExprLine show ?thesis
    by (auto split: list.splits prod.splits dest: File_add_prefix)
next
  case (ExprLineBlock toks start ls)
  assume "Parse_stmt X fix x (f, errs) = Some (f', errs')"
  with ExprLineBlock show ?thesis
    by (auto split: list.splits if_splits dest: Parse_lines_prefix)
next
  case (ExprCommentBlock c)
  assume "Parse_stmt X fix x (f, errs) = Some (f', errs')"
  with ExprCommentBlock show ?thesis by simp
qed

lemma Parse_stmt_empty_tokens:
  "Parse_stmt X fix x (f, errs) = Some (f', errs') \<Longrightarrow>
     (Token (Heap (FSyntax f') k) = []) = (Token (Heap (FSyntax f) k) = [])"
proof (cases x)
  case (ExprLine l)
  assume "Parse_stmt X fix x (f, errs) = Some (f', errs')"
  with ExprLine show ?thesis
    by (auto simp: set_Token_def split: list.splits prod.splits if_splits dest!: File_add_frame)
next
  case (ExprLineBlock toks start ls)
  assume "Parse_stmt X fix x (f, errs) = Some (f', errs')"
  with ExprLineBlock show ?thesis
    by (auto split: list.splits if_splits dest: Parse_lines_empty_tokens)
next
  case (ExprCommentBlock c)
  assume "Parse_stmt X fix x (f, errs) = Some (f', errs')"
  with ExprCommentBlock show ?thesis by simp
qed

lemma Parse_stmt_total:
  "has_token (Heap (FSyntax f)) x \<Longrightarrow> \<exists>st'. Parse_stmt X fix x (f, errs) = Some st'"
  by (cases x) (auto split: list.splits prod.splits)

lemma has_token_cong:
  "(\<And>k. (Token (h' k) = []) = (Token (h k) = [])) \<Longrightarrow> has_token h' x = has_token h x"
  by (cases x) auto

lemma Parse_stmts_total:
  "list_all (has_token (Heap (FSyntax f))) xs \<Longrightarrow>
     \<exists>f' errs'. Parse_stmts X fix xs (f, errs) = Some (f', errs') \<and> prefix errs errs'"
proof (induction xs arbitrary: f errs)
  case Nil
  then show ?case by simp
next
  case (Cons x xs)
  from Cons.prems have "has_token (Heap (FSyntax f)) x" by simp
  from Parse_stmt_total [OF this]
  obtain f1 errs1 where s: "Parse_stmt X fix x (f, errs) = Some (f1, errs1)" by fastforce
  have "\<And>y. has_token (Heap (FSyntax f1)) y = has_token (Heap (FSyntax f)) y"
    by (rule has_token_cong) (rule Parse_stmt_empty_tokens [OF s])
  with Cons.prems have "list_all (has_token (Heap (FSyntax f1))) xs" by (simp add: list_all_iff)
  from Cons.IH [OF this, of errs1]
  obtain f' errs' where r: "Parse_stmts X fix xs (f1, errs1) = Some (f', errs')"
    and p: "prefix errs1 errs'" by blast
  from Parse_stmt_prefix [OF s] p have "prefix errs errs'" by (rule prefix_order.trans)
  with s r show ?case by simp
qed

lemma Parse_stmts_append:
  "Parse_stmts X fix (xs @ ys) st =
     (case Parse_stmts X fix xs st of None \<Rightarrow> None | Some st1 \<Rightarrow> Parse_stmts X fix ys st1)"
  by (induction xs arbitrary: st) (auto split: option.splits)

text \<open>
  Claim C6, as amended. The diagnostics only accumulate: \<open>add\<close> and the whole loop of
  \<open>Parse\<close> extend the buffer at its end. A statement that \<open>add\<close> rejects with a
  diagnostic creates no Require, Exclude or Replace record. A rejected statement of
  another verb, and a module statement rejected as repeated, leave the Module record as
  it is; a first module statement rejected for its argument count or for invalid
  quoting has set the Module record, with an empty path and the line. Decoding goes on
  with the remaining statements whatever was rejected before, and reaches the end of
  every tree whose statements have a first token.
\<close>

theorem C6_rejected_statements:
  "(\<forall>f' errs' args'.
      File_add X fix f errs line verb args = (f', errs', args') \<longrightarrow>
      prefix errs errs' \<and>
      (errs' \<noteq> errs \<longrightarrow>
         Require f' = Require f \<and> Exclude f' = Exclude f \<and> Replace f' = Replace f \<and>
         Module f' =
           (if verb = ''module'' \<and> Module f = None
            then Some \<lparr>Mod = \<lparr>Path = [], Version = []\<rparr>, Syntax = Some line\<rparr>
            else Module f))) \<and>
   (Module f \<noteq> None \<longrightarrow>
      File_add X fix f errs line ''module'' args =
        (f, errs @ [diag f line RepeatedModule], args)) \<and>
   (Module f = None \<and> length args \<noteq> 1 \<longrightarrow>
      File_add X fix f errs line ''module'' args =
        (f\<lparr>Module := Some \<lparr>Mod = \<lparr>Path = [], Version = []\<rparr>, Syntax = Some line\<rparr>\<rparr>,
         errs @ [diag f line UsageModule], args)) \<and>
   (\<forall>a a0 e. Module f = None \<and> parseString X a = (a0, Inl e) \<longrightarrow>
      File_add X fix f errs line ''module'' [a] =
        (f\<lparr>Module := Some \<lparr>Mod = \<lparr>Path = [], Version = []\<rparr>, Syntax = Some line\<rparr>\<rparr>,
         errs @ [diag f line (InvalidQuotedString e)], [a0])) \<and>
   Parse_stmts X fix (xs @ ys) st =
     (case Parse_stmts X fix xs st of None \<Rightarrow> None | Some st1 \<Rightarrow> Parse_stmts X fix ys st1) \<and>
   (list_all (has_token (Heap (FSyntax f))) xs \<longrightarrow>
      (\<exists>f' errs'. Parse_stmts X fix xs (f, errs) = Some (f', errs') \<and> prefix errs errs'))"
proof -
  have a: "\<forall>f' errs' args'.
      File_add X fix f errs line verb args = (f', errs', args') \<longrightarrow>
      prefix errs errs' \<and>
      (errs' \<noteq> errs \<longrightarrow>
         Require f' = Require f \<and> Exclude f' = Exclude f \<and> Replace f' = Replace f \<and>
         Module f' =
           (if verb = ''module'' \<and> Module f = None
            then Some \<lparr>Mod = \<lparr>Path = [], Version = []\<rparr>, Syntax = Some line\<rparr>
            else Module f))"
    using File_add_prefix File_add_rejected by (intro allI impI conjI) blast+
  have b: "Module f \<noteq> None \<longrightarrow>
      File_add X fix f errs line ''module'' args =
        (f, errs @ [diag f line RepeatedModule], args)"
    using File_add_module_repeated by blast
  have c: "Module f = None \<and> length args \<noteq> 1 \<longrightarrow>
      File_add X fix f errs line ''module'' args =
        (f\<lparr>Module := Some \<lparr>Mod = \<lparr>Path = [], Version = []\<rparr>, Syntax = Some line\<rparr>\<rparr>,
         errs @ [diag f line UsageModule], args)"
    using File_add_module_usage by blast
  have d: "\<forall>a a0 e. Module f = None \<and> parseString X a = (a0, Inl e) \<longrightarrow>
      File_add X fix f errs line ''module'' [a] =
        (f\<lparr>Module := Some \<lparr>Mod = \<lparr>Path = [], Version = []\<rparr>, Syntax = Some line\<rparr>\<rparr>,
         errs @ [diag f line (InvalidQuotedString e)], [a0])"
    using File_add_module_quoting by blast
  have e: "Parse_stmts X fix (xs @ ys) st =
     (case Parse_stmts X fix xs st of None \<Rightarrow> None | Some st1 \<Rightarrow> Parse_stmts X fix ys st1)"
    by (rule Parse_stmts_append)
  have g: "list_all (has_token (Heap (FSyntax f))) xs \<longrightarrow>
      (\<exists>f' errs'. Parse_stmts X fix xs (f, errs) = Some (f', errs') \<and> prefix errs errs')"
    using Parse_stmts_total by blast
  from a b c d e g show ?thesis by (intro conjI)
qed

theorem C6_rejected_statements_witness:
  "(\<exists>f' errs'. Parse_stmts ref_ext None [ExprLine 0] (bare_module_File, []) = Some (f', errs')) \<and>
   (\<exists>f' errs' args'. File_add ref_ext None empty_File [] 0 ''require'' [''example.com/a''] =
      (f', errs', args') \<and> errs' \<noteq> [] \<and> Require f' = [] \<and> Exclude f' = [] \<and> Replace f' = [] \<and>
      Module f' = None) \<and>
   File_add ref_ext None empty_File [] 0 ''module'' [] =
     (empty_File\<lparr>Module := Some \<lparr>Mod = \<lparr>Path = [], Version = []\<rparr>, Syntax = Some 0\<rparr>\<rparr>,
      [diag empty_File 0 UsageModule], []) \<and>
   parseString ref_ext [CHR ''a'', squote] = ([CHR ''a'', squote], Inl ErrUnquotedQuote) \<and>
   File_add ref_ext None empty_File [] 0 ''module'' [[CHR ''a'', squote]] =
     (empty_File\<lparr>Module := Some \<lparr>Mod = \<lparr>Path = [], Version = []\<rparr>, Syntax = Some 0\<rparr>\<rparr>,
      [diag empty_File 0 (InvalidQuotedString ErrUnquotedQuote)], [[CHR ''a'', squote]])"
proof -
  have h: "list_all (has_token (Heap (FSyntax bare_module_File))) [ExprLine 0]"
    by (simp add: bare_module_File_def)
  note c = C6_rejected_statements [of ref_ext None bare_module_File "[]" 0 "''module''" "[]"
      "[ExprLine 0]" "[]" "(bare_module_File, [])"]
  from c h have a: "\<exists>f' errs'. Parse_stmts ref_ext None [ExprLine 0] (bare_module_File, []) =
      Some (f', errs')" by blast
  obtain f' errs' args' where r:
    "File_add ref_ext None empty_File [] 0 ''require'' [''example.com/a''] = (f', errs', args')"
    by (cases "File_add ref_ext None empty_File [] 0 ''require'' [''example.com/a'']")
  then have e: "errs' \<noteq> []" by (auto simp: File_add_def)
  note d = C6_rejected_statements [of ref_ext None empty_File "[]" 0 "''require''"
      "[''example.com/a'']" "[]" "[]" "(empty_File, [])"]
  from d r e have "Require f' = Require empty_File \<and> Exclude f' = Exclude empty_File \<and>
      Replace f' = Replace empty_File \<and> Module f' = Module empty_File"
    by auto
  then have "Require f' = [] \<and> Exclude f' = [] \<and> Replace f' = [] \<and> Module f' = None"
    by (simp add: empty_File_def)
  with r e have b: "\<exists>f' errs' args'.
      File_add ref_ext None empty_File [] 0 ''require'' [''example.com/a''] =
      (f', errs', args') \<and> errs' \<noteq> [] \<and> Require f' = [] \<and> Exclude f' = [] \<and> Replace f' = [] \<and>
      Module f' = None" by blast
  have mn: "Module empty_File = None" by (simp add: empty_File_def)
  note u = C6_rejected_statements [of ref_ext None empty_File "[]" 0 "''module''" "[]"
      "[]" "[]" "(empty_File, [])"]
  from u mn have us: "File_add ref_ext None empty_File [] 0 ''module'' [] =
     (empty_File\<lparr>Module := Some \<lparr>Mod = \<lparr>Path = [], Version = []\<rparr>, Syntax = Some 0\<rparr>\<rparr>,
      [diag empty_File 0 UsageModule], [])" by simp
  have ps: "parseString ref_ext [CHR ''a'', squote] = ([CHR ''a'', squote], Inl ErrUnquotedQuote)"
    by (simp add: parseString_def HasPrefix_def ContainsAny_def dquote_def squote_def)
  from u mn ps have q: "File_add ref_ext None empty_File [] 0 ''module'' [[CHR ''a'', squote]] =
     (empty_File\<lparr>Module := Some \<lparr>Mod = \<lparr>Path = [], Version = []\<rparr>, Syntax = Some 0\<rparr>\<rparr>,
      [diag empty_File 0 (InvalidQuotedString ErrUnquotedQuote)], [[CHR ''a'', squote]])"
    by simp
  from a b us ps q show ?thesis by (intro conjI)
qed

text \<open>
  The claim as the specification words it fails for the module directive: the line
  \<open>module\<close> with no argument is rejected with the usage diagnostic, and the Module
  record exists afterwards.
\<close>

theorem C6_counterexample:
  "map_option (\<lambda>(f', errs'). (Module f', Require f', Exclude f', Replace f', errs'))
     (Parse_stmts ref_ext None [ExprLine 0] (bare_module_File, [])) =
   Some (Some \<lparr>Mod = \<lparr>Path = [], Version = []\<rparr>, Syntax = Some 0\<rparr>, [], [], [],
         [(''go.mod'', 1, UsageModule)])"
  by (simp add: bare_module_File_def File_add_def diag_def set_Token_def)

section \<open>Adding a line to the tree\<close>

lemma tree_lines_simps [simp]:
  "tree_lines [] = []"
  "tree_lines (s # ss) = stmt_lines s @ tree_lines ss"
  "tree_lines (ss @ ts) = tree_lines ss @ tree_lines ts"
  by (simp_all add: tree_lines_def)

lemma mset_insert_after_list:
  assumes "h \<in> set ls"
  shows "add_mset h (mset (takeWhile (\<lambda>l. l \<noteq> h) ls) + mset (tl (dropWhile (\<lambda>l. l \<noteq> h) ls))) =
           mset ls"
proof -
  from assms have ne: "dropWhile (\<lambda>l. l \<noteq> h) ls \<noteq> []" by (simp add: dropWhile_eq_Nil_conv)
  then have "hd (dropWhile (\<lambda>l. l \<noteq> h) ls) = h" using hd_dropWhile [OF ne] by simp
  with ne have d: "dropWhile (\<lambda>l. l \<noteq> h) ls = h # tl (dropWhile (\<lambda>l. l \<noteq> h) ls)"
    by (metis list.collapse)
  have "mset ls = mset (takeWhile (\<lambda>l. l \<noteq> h) ls) + mset (dropWhile (\<lambda>l. l \<noteq> h) ls)"
    by (metis mset_append takeWhile_dropWhile_id)
  also have "\<dots> = mset (takeWhile (\<lambda>l. l \<noteq> h) ls) +
      add_mset h (mset (tl (dropWhile (\<lambda>l. l \<noteq> h) ls)))"
    by (subst d) simp
  finally show ?thesis by simp
qed

lemma insert_after_lines:
  "insert_after h new ss = Some (ss', b) \<Longrightarrow>
     mset (tree_lines ss') = add_mset new (mset (tree_lines ss))"
proof (induction h new ss arbitrary: ss' b rule: insert_after.induct)
  case (1 h new)
  then show ?case by simp
next
  case (2 h new l ss)
  then show ?case by (auto split: if_splits)
next
  case (3 h new toks start ls ss)
  then show ?case by (auto split: if_splits simp: mset_insert_after_list)
next
  case (4 h new c ss)
  then show ?case by auto
qed

lemma addLine_props:
  assumes "addLine x hint tokens = (x', new)"
  shows "new = Next x" and "Next x' = Suc (Next x)" and "Name x' = Name x"
    and "mset (tree_lines (Stmt x')) = add_mset new (mset (tree_lines (Stmt x)))"
    and "\<And>l. l \<noteq> new \<Longrightarrow> Heap x' l = Heap x l"
    and "line_tokens (Heap x' new) tokens"
proof -
  let ?place = "case hint of None \<Rightarrow> None | Some h \<Rightarrow> insert_after h (Next x) (Stmt x)"
  show "new = Next x" using assms
    by (auto simp: addLine_def Let_def split: option.splits prod.splits)
  show "Next x' = Suc (Next x)" using assms
    by (auto simp: addLine_def Let_def split: option.splits prod.splits)
  show "Name x' = Name x" using assms
    by (auto simp: addLine_def Let_def split: option.splits prod.splits)
  show "mset (tree_lines (Stmt x')) = add_mset new (mset (tree_lines (Stmt x)))"
  proof (cases ?place)
    case None
    with assms show ?thesis by (auto simp: addLine_def Let_def)
  next
    case (Some pl)
    obtain ss b where pl: "pl = (ss, b)" by (cases pl)
    from Some pl obtain h where "insert_after h (Next x) (Stmt x) = Some (ss, b)"
      by (auto split: option.splits)
    from insert_after_lines [OF this] Some pl assms show ?thesis
      by (auto simp: addLine_def Let_def)
  qed
  show "\<And>l. l \<noteq> new \<Longrightarrow> Heap x' l = Heap x l" using assms
    by (auto simp: addLine_def Let_def split: option.splits prod.splits)
  show "line_tokens (Heap x' new) tokens" using assms
    by (auto simp: addLine_def Let_def line_tokens_def split: option.splits prod.splits)
qed

section \<open>Claim C8\<close>

lemma AddExclude_loop_None:
  "(AddExclude_loop path vers xs hint = None) =
     (\<exists>x\<in>set xs. Path (Mod x) = path \<and> Version (Mod x) = vers)"
  by (induction xs arbitrary: hint) auto

lemma AddExclude_present:
  assumes "excludes_of f path vers \<noteq> []"
  shows "AddExclude X f path vers = f"
proof -
  from assms have "\<exists>x\<in>set (Exclude f). Path (Mod x) = path \<and> Version (Mod x) = vers"
    by (auto simp: excludes_of_def filter_empty_conv)
  then have "AddExclude_loop path vers (Exclude f) None = None"
    by (simp add: AddExclude_loop_None)
  then show ?thesis by (simp add: AddExclude_def)
qed

lemma AddExclude_absent:
  assumes "excludes_of f path vers = []"
  shows "Exclude (AddExclude X f path vers) =
           Exclude f @ [\<lparr>Mod = \<lparr>Path = path, Version = vers\<rparr>, Syntax = Some (Next (FSyntax f))\<rparr>]"
    and "Require (AddExclude X f path vers) = Require f"
    and "Replace (AddExclude X f path vers) = Replace f"
    and "Module (AddExclude X f path vers) = Module f"
    and "mset (tree_lines (Stmt (FSyntax (AddExclude X f path vers)))) =
           add_mset (Next (FSyntax f)) (mset (tree_lines (Stmt (FSyntax f))))"
    and "line_tokens (Heap (FSyntax (AddExclude X f path vers)) (Next (FSyntax f)))
           [''exclude'', AutoQuote X path, vers]"
    and "\<And>l. l \<noteq> Next (FSyntax f) \<Longrightarrow>
           Heap (FSyntax (AddExclude X f path vers)) l = Heap (FSyntax f) l"
proof -
  from assms have "\<not> (\<exists>x\<in>set (Exclude f). Path (Mod x) = path \<and> Version (Mod x) = vers)"
    by (auto simp: excludes_of_def filter_empty_conv)
  then have "AddExclude_loop path vers (Exclude f) None \<noteq> None"
    by (simp add: AddExclude_loop_None)
  then obtain hint where h: "AddExclude_loop path vers (Exclude f) None = Some hint" by auto
  obtain x' l where a: "addLine (FSyntax f) hint [''exclude'', AutoQuote X path, vers] = (x', l)"
    by (cases "addLine (FSyntax f) hint [''exclude'', AutoQuote X path, vers]")
  from h a have r: "AddExclude X f path vers =
      f\<lparr>Exclude := Exclude f @ [\<lparr>Mod = \<lparr>Path = path, Version = vers\<rparr>, Syntax = Some l\<rparr>],
        FSyntax := x'\<rparr>"
    by (simp add: AddExclude_def)
  note p = addLine_props [OF a]
  show "Exclude (AddExclude X f path vers) =
           Exclude f @ [\<lparr>Mod = \<lparr>Path = path, Version = vers\<rparr>, Syntax = Some (Next (FSyntax f))\<rparr>]"
    using r p(1) by simp
  show "Require (AddExclude X f path vers) = Require f" using r by simp
  show "Replace (AddExclude X f path vers) = Replace f" using r by simp
  show "Module (AddExclude X f path vers) = Module f" using r by simp
  show "mset (tree_lines (Stmt (FSyntax (AddExclude X f path vers)))) =
           add_mset (Next (FSyntax f)) (mset (tree_lines (Stmt (FSyntax f))))"
    using r p(1,4) by simp
  show "line_tokens (Heap (FSyntax (AddExclude X f path vers)) (Next (FSyntax f)))
           [''exclude'', AutoQuote X path, vers]"
    using r p(1,6) by simp
  show "\<And>l. l \<noteq> Next (FSyntax f) \<Longrightarrow>
           Heap (FSyntax (AddExclude X f path vers)) l = Heap (FSyntax f) l"
    using r p(1,5) by simp
qed

lemma AddExclude_excludes_of:
  "excludes_of (AddExclude X f path vers) path vers =
     (if excludes_of f path vers = []
      then [\<lparr>Mod = \<lparr>Path = path, Version = vers\<rparr>, Syntax = Some (Next (FSyntax f))\<rparr>]
      else excludes_of f path vers)"
proof (cases "excludes_of f path vers = []")
  case True
  from AddExclude_absent(1) [OF True, of X] True show ?thesis
    by (simp add: excludes_of_def)
next
  case False
  with AddExclude_present [OF False] show ?thesis by simp
qed

lemma AddExclude_idem:
  "AddExclude X (AddExclude X f path vers) path vers = AddExclude X f path vers"
  by (rule AddExclude_present) (simp add: AddExclude_excludes_of)

text \<open>
  Claim C8, as amended. \<open>AddExclude\<close> changes nothing when a record with that path and
  version exists; otherwise it appends one record, and the tree gains exactly one line,
  which holds the directive. A second call with the same arguments changes nothing.
  After the two calls the file has the records for the pair that it had at the start,
  or exactly one when it had none.
\<close>

theorem C8_AddExclude:
  "(excludes_of f path vers \<noteq> [] \<longrightarrow> AddExclude X f path vers = f) \<and>
   (excludes_of f path vers = [] \<longrightarrow>
      Exclude (AddExclude X f path vers) =
        Exclude f @ [\<lparr>Mod = \<lparr>Path = path, Version = vers\<rparr>, Syntax = Some (Next (FSyntax f))\<rparr>] \<and>
      Require (AddExclude X f path vers) = Require f \<and>
      Replace (AddExclude X f path vers) = Replace f \<and>
      Module (AddExclude X f path vers) = Module f \<and>
      mset (tree_lines (Stmt (FSyntax (AddExclude X f path vers)))) =
        add_mset (Next (FSyntax f)) (mset (tree_lines (Stmt (FSyntax f)))) \<and>
      line_tokens (Heap (FSyntax (AddExclude X f path vers)) (Next (FSyntax f)))
        [''exclude'', AutoQuote X path, vers] \<and>
      (\<forall>l. l \<noteq> Next (FSyntax f) \<longrightarrow>
         Heap (FSyntax (AddExclude X f path vers)) l = Heap (FSyntax f) l)) \<and>
   AddExclude X (AddExclude X f path vers) path vers = AddExclude X f path vers \<and>
   length (excludes_of (AddExclude X (AddExclude X f path vers) path vers) path vers) =
     (if excludes_of f path vers = [] then 1 else length (excludes_of f path vers))"
proof -
  have a: "excludes_of f path vers \<noteq> [] \<longrightarrow> AddExclude X f path vers = f"
    using AddExclude_present by blast
  have b: "excludes_of f path vers = [] \<longrightarrow>
      Exclude (AddExclude X f path vers) =
        Exclude f @ [\<lparr>Mod = \<lparr>Path = path, Version = vers\<rparr>, Syntax = Some (Next (FSyntax f))\<rparr>] \<and>
      Require (AddExclude X f path vers) = Require f \<and>
      Replace (AddExclude X f path vers) = Replace f \<and>
      Module (AddExclude X f path vers) = Module f \<and>
      mset (tree_lines (Stmt (FSyntax (AddExclude X f path vers)))) =
        add_mset (Next (FSyntax f)) (mset (tree_lines (Stmt (FSyntax f)))) \<and>
      line_tokens (Heap (FSyntax (AddExclude X f path vers)) (Next (FSyntax f)))
        [''exclude'', AutoQuote X path, vers] \<and>
      (\<forall>l. l \<noteq> Next (FSyntax f) \<longrightarrow>
         Heap (FSyntax (AddExclude X f path vers)) l = Heap (FSyntax f) l)"
  proof (intro impI)
    assume e: "excludes_of f path vers = []"
    from AddExclude_absent [OF e] show "Exclude (AddExclude X f path vers) =
        Exclude f @ [\<lparr>Mod = \<lparr>Path = path, Version = vers\<rparr>, Syntax = Some (Next (FSyntax f))\<rparr>] \<and>
      Require (AddExclude X f path vers) = Require f \<and>
      Replace (AddExclude X f path vers) = Replace f \<and>
      Module (AddExclude X f path vers) = Module f \<and>
      mset (tree_lines (Stmt (FSyntax (AddExclude X f path vers)))) =
        add_mset (Next (FSyntax f)) (mset (tree_lines (Stmt (FSyntax f)))) \<and>
      line_tokens (Heap (FSyntax (AddExclude X f path vers)) (Next (FSyntax f)))
        [''exclude'', AutoQuote X path, vers] \<and>
      (\<forall>l. l \<noteq> Next (FSyntax f) \<longrightarrow>
         Heap (FSyntax (AddExclude X f path vers)) l = Heap (FSyntax f) l)"
      by blast
  qed
  have c: "AddExclude X (AddExclude X f path vers) path vers = AddExclude X f path vers"
    by (rule AddExclude_idem)
  have d: "length (excludes_of (AddExclude X (AddExclude X f path vers) path vers) path vers) =
     (if excludes_of f path vers = [] then 1 else length (excludes_of f path vers))"
    by (simp add: AddExclude_idem AddExclude_excludes_of)
  from a b c d show ?thesis by (intro conjI)
qed

theorem C8_AddExclude_witness:
  "excludes_of empty_File ''example.com/a'' ''v1.0.0'' = [] \<and>
   Exclude (AddExclude ref_ext (AddExclude ref_ext empty_File ''example.com/a'' ''v1.0.0'')
      ''example.com/a'' ''v1.0.0'') =
     [\<lparr>Mod = \<lparr>Path = ''example.com/a'', Version = ''v1.0.0''\<rparr>, Syntax = Some 0\<rparr>] \<and>
   length (excludes_of
     (AddExclude ref_ext (AddExclude ref_ext empty_File ''example.com/a'' ''v1.0.0'')
        ''example.com/a'' ''v1.0.0'') ''example.com/a'' ''v1.0.0'') = 1"
proof -
  have e: "excludes_of empty_File ''example.com/a'' ''v1.0.0'' = []"
    by (simp add: excludes_of_def empty_File_def)
  note c = C8_AddExclude [of empty_File "''example.com/a''" "''v1.0.0''" ref_ext]
  from c e have "Exclude (AddExclude ref_ext empty_File ''example.com/a'' ''v1.0.0'') =
      Exclude empty_File @
      [\<lparr>Mod = \<lparr>Path = ''example.com/a'', Version = ''v1.0.0''\<rparr>,
        Syntax = Some (Next (FSyntax empty_File))\<rparr>]" by blast
  then have x: "Exclude (AddExclude ref_ext empty_File ''example.com/a'' ''v1.0.0'') =
      [\<lparr>Mod = \<lparr>Path = ''example.com/a'', Version = ''v1.0.0''\<rparr>, Syntax = Some 0\<rparr>]"
    by (simp add: empty_File_def)
  from c have i: "AddExclude ref_ext (AddExclude ref_ext empty_File ''example.com/a'' ''v1.0.0'')
      ''example.com/a'' ''v1.0.0'' = AddExclude ref_ext empty_File ''example.com/a'' ''v1.0.0''"
    by blast
  from c have "length (excludes_of
     (AddExclude ref_ext (AddExclude ref_ext empty_File ''example.com/a'' ''v1.0.0'')
        ''example.com/a'' ''v1.0.0'') ''example.com/a'' ''v1.0.0'') =
     (if excludes_of empty_File ''example.com/a'' ''v1.0.0'' = [] then 1
      else length (excludes_of empty_File ''example.com/a'' ''v1.0.0''))" by blast
  with e have "length (excludes_of
     (AddExclude ref_ext (AddExclude ref_ext empty_File ''example.com/a'' ''v1.0.0'')
        ''example.com/a'' ''v1.0.0'') ''example.com/a'' ''v1.0.0'') = 1" by simp
  with e x i show ?thesis by simp
qed

text \<open>
  The claim as the specification words it fails "from any starting state": decoding a
  file with the same exclude statement twice gives two records for the pair, and two
  calls of \<open>AddExclude\<close> leave both.
\<close>

theorem C8_counterexample:
  "map_option (map_sum id (\<lambda>f. length (excludes_of
       (AddExclude ref_ext (AddExclude ref_ext f ''example.com/a'' ''v1.0.0'')
          ''example.com/a'' ''v1.0.0'') ''example.com/a'' ''v1.0.0'')))
     (Parse ref_ext dup_exclude_syntax None) = Some (Inr 2)"
proof -
  have qa: "\<not> ContainsAny ''example.com/a'' [dquote, squote, bquote]"
    by (rule quote_free) (simp add: dquote_def squote_def bquote_def)
  have qv: "\<not> ContainsAny ''v1.0.0'' [dquote, squote, bquote]"
    by (rule quote_free) (simp add: dquote_def squote_def bquote_def)
  have g: "ParseGopkgIn ref_ext ''example.com/a'' = None"
    by (rule ref_ext_plain_path) (simp add: HasPrefix_def)
  have m: "moduleMajorVersion ref_ext ''example.com/a'' = Inr ''v1''"
    using g by (simp add: moduleMajorVersion_segment final_segment_def explicit_major_def
        is_number_def is_digit_def)
  have ag: "majors_agree ''v1'' (semver_Major ref_ext (semver_Canonical ref_ext ''v1.0.0''))"
    using ref_ext_versions(8) by (simp add: majors_agree_def)
  note add = File_add_exclude [OF parseString_plain [OF qa]
      parseVersion_plain [OF qv ref_ext_versions(7)] m]
  have "\<exists>f. Parse ref_ext dup_exclude_syntax None = Some (Inr f) \<and>
      map (\<lambda>x. (Path (Mod x), Version (Mod x))) (Exclude f) =
        [(''example.com/a'', semver_Canonical ref_ext ''v1.0.0''),
         (''example.com/a'', semver_Canonical ref_ext ''v1.0.0'')]"
    using ag by (simp add: Parse_def dup_exclude_syntax_def add set_Token_def)
  then obtain f where p: "Parse ref_ext dup_exclude_syntax None = Some (Inr f)"
    and x: "map (\<lambda>x. (Path (Mod x), Version (Mod x))) (Exclude f) =
        [(''example.com/a'', ''v1.0.0''), (''example.com/a'', ''v1.0.0'')]"
    by (auto simp: ref_ext_def)
  from x have n: "length (excludes_of f ''example.com/a'' ''v1.0.0'') = 2"
    by (auto simp: excludes_of_def map_eq_Cons_conv)
  then have "excludes_of f ''example.com/a'' ''v1.0.0'' \<noteq> []" by auto
  from AddExclude_present [OF this] have "AddExclude ref_ext f ''example.com/a'' ''v1.0.0'' = f" .
  with p n show ?thesis by simp
qed

section \<open>Claim C3\<close>

lemma AddRequire_loop_total:
  assumes "\<forall>r\<in>set rs. Path (Mod r) = path \<longrightarrow> Syntax r \<noteq> None"
  shows "\<exists>rs' x'. AddRequire_loop X path vers rs need x =
           Some (rs', need \<and> (\<forall>r\<in>set rs. Path (Mod r) \<noteq> path), x') \<and>
           length rs' = length rs \<and> Stmt x' = Stmt x \<and> Next x' = Next x \<and> Name x' = Name x"
  using assms
proof (induction rs arbitrary: need x)
  case Nil
  then show ?case by simp
next
  case (Cons r rs)
  from Cons.prems have rest: "\<forall>r\<in>set rs. Path (Mod r) = path \<longrightarrow> Syntax r \<noteq> None" by simp
  show ?case
  proof (cases "Path (Mod r) = path")
    case False
    from Cons.IH [OF rest, of need x] False show ?thesis by auto
  next
    case True
    with Cons.prems obtain l where l: "Syntax r = Some l" by auto
    show ?thesis
    proof (cases need)
      case True
      let ?x1 = "x\<lparr>Heap := (Heap x)(l := (Heap x l)\<lparr>Token :=
          (if InBlock (Heap x l) then tl [''require'', AutoQuote X path, vers]
           else [''require'', AutoQuote X path, vers])\<rparr>)\<rparr>"
      from Cons.IH [OF rest, of False ?x1] \<open>Path (Mod r) = path\<close> l True show ?thesis
        by (auto simp: updateLine_def)
    next
      case False
      let ?x1 = "x\<lparr>Heap := (Heap x)(l := (Heap x l)\<lparr>Token := []\<rparr>)\<rparr>"
      from Cons.IH [OF rest, of False ?x1] \<open>Path (Mod r) = path\<close> l False show ?thesis
        by (auto simp: removeLine_def)
    qed
  qed
qed

lemma AddRequire_loop_nth:
  assumes "AddRequire_loop X path vers rs need x = Some (rs', need', x')" and "j < length rs"
  shows "rs' ! j =
           (if Path (Mod (rs ! j)) \<noteq> path then rs ! j
            else if need \<and> (\<forall>k<j. Path (Mod (rs ! k)) \<noteq> path)
              then (rs ! j)\<lparr>Mod := (Mod (rs ! j))\<lparr>Version := vers\<rparr>\<rparr>
            else zero_Require)"
  using assms
proof (induction rs arbitrary: need x rs' j)
  case Nil
  then show ?case by simp
next
  case (Cons r rs)
  show ?case
  proof (cases j)
    case 0
    with Cons.prems(1) show ?thesis
      by (auto split: if_splits option.splits)
  next
    case (Suc i)
    with Cons.prems(2) have i: "i < length rs" by simp
    have all: "\<And>P. (\<forall>k<Suc i. P k) = (P 0 \<and> (\<forall>k<i. P (Suc k)))"
      by (auto simp: less_Suc_eq_0_disj)
    show ?thesis
    proof (cases "Path (Mod r) = path")
      case False
      with Cons.prems(1) obtain rt where
        rec: "AddRequire_loop X path vers rs need x = Some (rt, need', x')" and "rs' = r # rt"
        by (auto split: option.splits)
      with Cons.IH [OF rec i] False Suc show ?thesis by (auto simp: all)
    next
      case True
      with Cons.prems(1) obtain rt r0 xm where
        rec: "AddRequire_loop X path vers rs False xm = Some (rt, need', x')" and "rs' = r0 # rt"
        by (auto split: if_splits option.splits)
      with Cons.IH [OF rec i] True Suc show ?thesis by (auto simp: all)
    qed
  qed
qed

lemma AddRequire_loop_filter:
  assumes "AddRequire_loop X path vers rs need x = Some (rs', need', x')"
    and "\<forall>r\<in>set rs. Path (Mod r) = path \<longrightarrow> Syntax r \<noteq> None"
  shows "filter (\<lambda>r. Path (Mod r) = path \<and> r \<noteq> zero_Require) rs' =
           (if need then
              (case filter (\<lambda>r. Path (Mod r) = path) rs of
                 [] \<Rightarrow> []
               | m # ms \<Rightarrow> [m\<lparr>Mod := \<lparr>Path = path, Version = vers\<rparr>\<rparr>])
            else [])"
  using assms
proof (induction rs arbitrary: need x rs')
  case Nil
  then show ?case by simp
next
  case (Cons r rs)
  from Cons.prems(2) have rest: "\<forall>r\<in>set rs. Path (Mod r) = path \<longrightarrow> Syntax r \<noteq> None" by simp
  show ?case
  proof (cases "Path (Mod r) = path")
    case False
    with Cons.prems(1) obtain rt where
      rec: "AddRequire_loop X path vers rs need x = Some (rt, need', x')" and rs': "rs' = r # rt"
      by (auto split: option.splits)
    from Cons.IH [OF rec rest] rs' False show ?thesis by simp
  next
    case True
    with Cons.prems(2) obtain l where l: "Syntax r = Some l" by auto
    show ?thesis
    proof (cases need)
      case nd: True
      with True Cons.prems(1) obtain rt x1 where
        rec: "AddRequire_loop X path vers rs False x1 = Some (rt, need', x')"
        and rs': "rs' = r\<lparr>Mod := (Mod r)\<lparr>Version := vers\<rparr>\<rparr> # rt"
        by (auto split: option.splits)
      have eq: "r\<lparr>Mod := (Mod r)\<lparr>Version := vers\<rparr>\<rparr> = r\<lparr>Mod := \<lparr>Path = path, Version = vers\<rparr>\<rparr>"
        using True by (cases "Mod r") auto
      have "Syntax (r\<lparr>Mod := \<lparr>Path = path, Version = vers\<rparr>\<rparr>) \<noteq> Syntax zero_Require"
        using l by (simp add: zero_Require_def)
      then have ne: "r\<lparr>Mod := \<lparr>Path = path, Version = vers\<rparr>\<rparr> \<noteq> zero_Require" by metis
      from Cons.IH [OF rec rest] have "filter (\<lambda>r. Path (Mod r) = path \<and> r \<noteq> zero_Require) rt = []"
        by simp
      with rs' True nd ne show ?thesis by (simp add: eq)
    next
      case nd: False
      with True Cons.prems(1) obtain rt x1 where
        rec: "AddRequire_loop X path vers rs False x1 = Some (rt, need', x')"
        and rs': "rs' = zero_Require # rt"
        by (auto split: option.splits)
      from Cons.IH [OF rec rest] rs' nd show ?thesis by simp
    qed
  qed
qed

lemma AddRequire_loop_heap:
  assumes "AddRequire_loop X path vers rs need x = Some (rs', need', x')"
    and "distinct (lines_for rs path)"
  shows "Heap x' l =
           (if need \<and> lines_for rs path \<noteq> [] \<and> hd (lines_for rs path) = Some l then
              (Heap x l)\<lparr>Token := (if InBlock (Heap x l) then [AutoQuote X path, vers]
                                    else [''require'', AutoQuote X path, vers])\<rparr>
            else if Some l \<in> set (lines_for rs path) then (Heap x l)\<lparr>Token := []\<rparr>
            else Heap x l)"
  using assms
proof (induction rs arbitrary: need x rs')
  case Nil
  then show ?case by (simp add: lines_for_def)
next
  case (Cons r rs)
  show ?case
  proof (cases "Path (Mod r) = path")
    case False
    with Cons.prems(1) obtain rt where
      rec: "AddRequire_loop X path vers rs need x = Some (rt, need', x')"
      by (auto split: option.splits)
    from False have lf: "lines_for (r # rs) path = lines_for rs path" by (simp add: lines_for_def)
    from Cons.IH [OF rec] Cons.prems(2) lf show ?thesis by simp
  next
    case True
    then have lf: "lines_for (r # rs) path = Syntax r # lines_for rs path"
      by (simp add: lines_for_def)
    with Cons.prems(2) have d: "distinct (lines_for rs path)"
      and nin: "Syntax r \<notin> set (lines_for rs path)" by auto
    show ?thesis
    proof (cases need)
      case nd: True
      with True Cons.prems(1) obtain rt x1 where
        up: "updateLine x (Syntax r) [''require'', AutoQuote X path, vers] = Some x1"
        and rec: "AddRequire_loop X path vers rs False x1 = Some (rt, need', x')"
        by (auto split: option.splits)
      from up obtain k where k: "Syntax r = Some k"
        and x1: "x1 = x\<lparr>Heap := (Heap x)(k := (Heap x k)\<lparr>Token :=
          (if InBlock (Heap x k) then tl [''require'', AutoQuote X path, vers]
           else [''require'', AutoQuote X path, vers])\<rparr>)\<rparr>"
        by (auto simp: updateLine_def split: option.splits)
      from Cons.IH [OF rec d] have
        h: "Heap x' l = (if Some l \<in> set (lines_for rs path) then (Heap x1 l)\<lparr>Token := []\<rparr>
                         else Heap x1 l)" by simp
      show ?thesis
      proof (cases "l = k")
        case True
        with nin k have "Some l \<notin> set (lines_for rs path)" by simp
        with h True x1 lf k nd show ?thesis by simp
      next
        case False
        with h x1 lf k nd show ?thesis by simp
      qed
    next
      case nd: False
      with True Cons.prems(1) obtain rt x1 where
        rm: "removeLine x (Syntax r) = Some x1"
        and rec: "AddRequire_loop X path vers rs False x1 = Some (rt, need', x')"
        by (auto split: option.splits)
      from rm obtain k where k: "Syntax r = Some k"
        and x1: "x1 = x\<lparr>Heap := (Heap x)(k := (Heap x k)\<lparr>Token := []\<rparr>)\<rparr>"
        by (auto simp: removeLine_def split: option.splits)
      from Cons.IH [OF rec d] have
        h: "Heap x' l = (if Some l \<in> set (lines_for rs path) then (Heap x1 l)\<lparr>Token := []\<rparr>
                         else Heap x1 l)" by simp
      show ?thesis
      proof (cases "l = k")
        case True
        with nin k have "Some l \<notin> set (lines_for rs path)" by simp
        with h True x1 lf k nd show ?thesis by simp
      next
        case False
        with h x1 lf k nd show ?thesis by simp
      qed
    qed
  qed
qed

lemma lines_for_mem:
  "j < length rs \<Longrightarrow> Path (Mod (rs ! j)) = path \<Longrightarrow> Syntax (rs ! j) \<in> set (lines_for rs path)"
  by (auto simp: lines_for_def)

lemma first_for_Cons:
  "first_for (r # rs) path j =
     (if Path (Mod r) = path then j = 0 else (\<exists>i. j = Suc i \<and> first_for rs path i))"
proof (cases j)
  case 0
  then show ?thesis by (auto simp: first_for_def)
next
  case (Suc i)
  have "(\<forall>k<Suc i. Path (Mod ((r # rs) ! k)) \<noteq> path) =
        (Path (Mod r) \<noteq> path \<and> (\<forall>k<i. Path (Mod (rs ! k)) \<noteq> path))"
    by (auto simp: less_Suc_eq_0_disj)
  with Suc show ?thesis by (auto simp: first_for_def)
qed

lemma first_for_hd:
  "first_for rs path j \<Longrightarrow> lines_for rs path \<noteq> [] \<and> hd (lines_for rs path) = Syntax (rs ! j)"
proof (induction rs arbitrary: j)
  case Nil
  then show ?case by (simp add: first_for_def)
next
  case (Cons r rs)
  show ?case
  proof (cases "Path (Mod r) = path")
    case True
    with Cons.prems have "j = 0" by (simp add: first_for_Cons)
    with True show ?thesis by (simp add: lines_for_def)
  next
    case False
    with Cons.prems obtain i where j: "j = Suc i" and f: "first_for rs path i"
      by (auto simp: first_for_Cons)
    from False have "lines_for (r # rs) path = lines_for rs path" by (simp add: lines_for_def)
    with Cons.IH [OF f] j show ?thesis by simp
  qed
qed

lemma later_not_hd:
  assumes "distinct (lines_for rs path)" and "j < length rs" and "Path (Mod (rs ! j)) = path"
    and "\<not> first_for rs path j"
  shows "hd (lines_for rs path) \<noteq> Syntax (rs ! j)"
  using assms
proof (induction rs arbitrary: j)
  case Nil
  then show ?case by simp
next
  case (Cons r rs)
  show ?case
  proof (cases "Path (Mod r) = path")
    case True
    with Cons.prems(4) obtain i where j: "j = Suc i" by (cases j) (auto simp: first_for_Cons)
    from True have lf: "lines_for (r # rs) path = Syntax r # lines_for rs path"
      by (simp add: lines_for_def)
    from j Cons.prems(2,3) have "Syntax (rs ! i) \<in> set (lines_for rs path)"
      by (auto intro: lines_for_mem)
    with Cons.prems(1) lf j show ?thesis by auto
  next
    case False
    with Cons.prems(3) obtain i where j: "j = Suc i" by (cases j) auto
    from False have lf: "lines_for (r # rs) path = lines_for rs path" by (simp add: lines_for_def)
    from Cons.prems(4) False j have nf: "\<not> first_for rs path i" by (simp add: first_for_Cons)
    from Cons.IH [OF _ _ _ nf] Cons.prems(1,2,3) lf j show ?thesis by simp
  qed
qed

text \<open>
  Claim C3. Let no record for the path be left without its line, and let the records for
  the path point at different lines. Then \<open>AddRequire\<close> returns. If a record for the
  path exists, the first one in slice order gets the new version and its line the new
  tokens, every further one is blanked to the zero value and its line is marked removed,
  and every other record, every other line and the statement list stay as they are. If
  none exists, one record is appended, and one line with the directive is appended to
  the tree. Afterwards exactly one record that is not blanked has the path, and it
  carries the given version.
\<close>

theorem C3_AddRequire:
  assumes "\<forall>r\<in>set (Require f). Path (Mod r) = path \<longrightarrow> Syntax r \<noteq> None"
    and "distinct (lines_for (Require f) path)"
  shows "\<exists>f'. AddRequire X f path vers = Some f' \<and>
    ((\<exists>r\<in>set (Require f). Path (Mod r) = path) \<longrightarrow>
       length (Require f') = length (Require f) \<and>
       (\<forall>j<length (Require f).
          Require f' ! j =
            (if Path (Mod (Require f ! j)) \<noteq> path then Require f ! j
             else if first_for (Require f) path j
               then (Require f ! j)\<lparr>Mod := \<lparr>Path = path, Version = vers\<rparr>\<rparr>
             else zero_Require)) \<and>
       Stmt (FSyntax f') = Stmt (FSyntax f) \<and>
       (\<forall>j l. j < length (Require f) \<and> Path (Mod (Require f ! j)) = path \<and>
              Syntax (Require f ! j) = Some l \<longrightarrow>
          InBlock (Heap (FSyntax f') l) = InBlock (Heap (FSyntax f) l) \<and>
          (if first_for (Require f) path j
           then line_tokens (Heap (FSyntax f') l) [''require'', AutoQuote X path, vers]
           else Token (Heap (FSyntax f') l) = [])) \<and>
       (\<forall>l. Some l \<notin> set (lines_for (Require f) path) \<longrightarrow>
          Heap (FSyntax f') l = Heap (FSyntax f) l)) \<and>
    (\<not> (\<exists>r\<in>set (Require f). Path (Mod r) = path) \<longrightarrow>
       Require f' = Require f @
         [\<lparr>Mod = \<lparr>Path = path, Version = vers\<rparr>, Syntax = Some (Next (FSyntax f))\<rparr>] \<and>
       Stmt (FSyntax f') = Stmt (FSyntax f) @ [ExprLine (Next (FSyntax f))] \<and>
       Token (Heap (FSyntax f') (Next (FSyntax f))) = [''require'', AutoQuote X path, vers] \<and>
       (\<forall>l. l \<noteq> Next (FSyntax f) \<longrightarrow> Heap (FSyntax f') l = Heap (FSyntax f) l)) \<and>
    (\<exists>s. requires_of f' path = [\<lparr>Mod = \<lparr>Path = path, Version = vers\<rparr>, Syntax = s\<rparr>])"
proof -
  let ?rs = "Require f"
  let ?none = "\<forall>r\<in>set ?rs. Path (Mod r) \<noteq> path"
  from AddRequire_loop_total [OF assms(1), of X vers True "FSyntax f"]
  obtain rs' x' where
    loop: "AddRequire_loop X path vers ?rs True (FSyntax f) = Some (rs', ?none, x')"
    and len: "length rs' = length ?rs" and st: "Stmt x' = Stmt (FSyntax f)"
    and nx: "Next x' = Next (FSyntax f)"
    by auto
  let ?f1 = "f\<lparr>Require := rs', FSyntax := x'\<rparr>"
  note nth = AddRequire_loop_nth [OF loop]
  note hp = AddRequire_loop_heap [OF loop assms(2)]
  note fl = AddRequire_loop_filter [OF loop assms(1)]
  show ?thesis
  proof (cases ?none)
    case False
    then have res: "AddRequire X f path vers = Some ?f1"
      using loop by (auto simp: AddRequire_def Let_def)
    have rec: "\<forall>j<length ?rs. rs' ! j =
            (if Path (Mod (?rs ! j)) \<noteq> path then ?rs ! j
             else if first_for ?rs path j then (?rs ! j)\<lparr>Mod := \<lparr>Path = path, Version = vers\<rparr>\<rparr>
             else zero_Require)"
    proof (intro allI impI)
      fix j assume j: "j < length ?rs"
      have "Path (Mod (?rs ! j)) = path \<Longrightarrow>
          (?rs ! j)\<lparr>Mod := (Mod (?rs ! j))\<lparr>Version := vers\<rparr>\<rparr> =
          (?rs ! j)\<lparr>Mod := \<lparr>Path = path, Version = vers\<rparr>\<rparr>"
        by (cases "Mod (?rs ! j)") auto
      with nth [OF j] j show "rs' ! j =
            (if Path (Mod (?rs ! j)) \<noteq> path then ?rs ! j
             else if first_for ?rs path j then (?rs ! j)\<lparr>Mod := \<lparr>Path = path, Version = vers\<rparr>\<rparr>
             else zero_Require)"
        by (auto simp: first_for_def)
    qed
    have lines: "\<forall>j l. j < length ?rs \<and> Path (Mod (?rs ! j)) = path \<and> Syntax (?rs ! j) = Some l \<longrightarrow>
          InBlock (Heap x' l) = InBlock (Heap (FSyntax f) l) \<and>
          (if first_for ?rs path j
           then line_tokens (Heap x' l) [''require'', AutoQuote X path, vers]
           else Token (Heap x' l) = [])"
    proof (intro allI impI, elim conjE)
      fix j l
      assume j: "j < length ?rs" and m: "Path (Mod (?rs ! j)) = path"
        and l: "Syntax (?rs ! j) = Some l"
      from lines_for_mem [OF j m] l have mem: "Some l \<in> set (lines_for ?rs path)" by simp
      show "InBlock (Heap x' l) = InBlock (Heap (FSyntax f) l) \<and>
          (if first_for ?rs path j
           then line_tokens (Heap x' l) [''require'', AutoQuote X path, vers]
           else Token (Heap x' l) = [])"
      proof (cases "first_for ?rs path j")
        case True
        from first_for_hd [OF True] l hp [of l] True show ?thesis
          by (simp add: line_tokens_def)
      next
        case False
        from later_not_hd [OF assms(2) j m False] l mem hp [of l] False show ?thesis
          by simp
      qed
    qed
    have other: "\<forall>l. Some l \<notin> set (lines_for ?rs path) \<longrightarrow> Heap x' l = Heap (FSyntax f) l"
    proof (intro allI impI)
      fix l assume n: "Some l \<notin> set (lines_for ?rs path)"
      then have "\<not> (lines_for ?rs path \<noteq> [] \<and> hd (lines_for ?rs path) = Some l)"
        by (metis hd_in_set)
      with n hp [of l] show "Heap x' l = Heap (FSyntax f) l" by simp
    qed
    from False obtain m ms where ms: "filter (\<lambda>r. Path (Mod r) = path) ?rs = m # ms"
      by (cases "filter (\<lambda>r. Path (Mod r) = path) ?rs") (auto simp: filter_empty_conv)
    with fl have "requires_of ?f1 path = [m\<lparr>Mod := \<lparr>Path = path, Version = vers\<rparr>\<rparr>]"
      by (simp add: requires_of_def)
    then have one: "\<exists>s. requires_of ?f1 path = [\<lparr>Mod = \<lparr>Path = path, Version = vers\<rparr>, Syntax = s\<rparr>]"
      by (cases m) auto
    from False res len rec st lines other one show ?thesis by simp
  next
    case True
    obtain x2 l where al: "addLine x' None [''require'', AutoQuote X path, vers] = (x2, l)"
      by (cases "addLine x' None [''require'', AutoQuote X path, vers]")
    from True have same: "rs' = ?rs"
    proof -
      have "\<forall>j<length ?rs. rs' ! j = ?rs ! j"
        using nth True by (auto simp: all_set_conv_all_nth)
      with len show ?thesis by (simp add: list_eq_iff_nth_eq)
    qed
    from True hp have heap: "Heap x' = Heap (FSyntax f)"
      by (auto simp: lines_for_def filter_empty_conv fun_eq_iff)
    from al have x2: "x2 = x'\<lparr>Stmt := Stmt x' @ [ExprLine (Next x')],
        Heap := (Heap x')(Next x' := \<lparr>Token = [''require'', AutoQuote X path, vers],
                                      InBlock = False, Start = 0\<rparr>),
        Next := Suc (Next x')\<rparr>" and l: "l = Next x'"
      by (auto simp: addLine_def Let_def)
    from True loop al have res: "AddRequire X f path vers =
        Some (?f1\<lparr>Require := rs' @ [\<lparr>Mod = \<lparr>Path = path, Version = vers\<rparr>, Syntax = Some l\<rparr>],
                  FSyntax := x2\<rparr>)"
      by (simp add: AddRequire_def AddNewRequire_def Let_def)
    from True have "filter (\<lambda>r. Path (Mod r) = path \<and> r \<noteq> zero_Require) ?rs = []"
      by (auto simp: filter_empty_conv)
    then have one: "requires_of (?f1\<lparr>Require := rs' @
          [\<lparr>Mod = \<lparr>Path = path, Version = vers\<rparr>, Syntax = Some l\<rparr>], FSyntax := x2\<rparr>) path =
        [\<lparr>Mod = \<lparr>Path = path, Version = vers\<rparr>, Syntax = Some l\<rparr>]"
      using same by (simp add: requires_of_def zero_Require_def)
    from True res same heap x2 l st nx one show ?thesis by simp
  qed
qed

theorem C3_AddRequire_witness:
  "lines_for (Require two_require_File) ''example.com/a'' = [Some 0, Some 1] \<and>
   distinct (lines_for (Require two_require_File) ''example.com/a'') \<and>
   (\<exists>f'. AddRequire ref_ext two_require_File ''example.com/a'' ''v1.2.0'' = Some f' \<and>
      length (Require f') = 2 \<and>
      Require f' ! 0 = \<lparr>Mod = \<lparr>Path = ''example.com/a'', Version = ''v1.2.0''\<rparr>, Syntax = Some 0\<rparr> \<and>
      Require f' ! 1 = zero_Require \<and>
      requires_of f' ''example.com/a'' =
        [\<lparr>Mod = \<lparr>Path = ''example.com/a'', Version = ''v1.2.0''\<rparr>, Syntax = Some 0\<rparr>])"
proof -
  have h1: "\<forall>r\<in>set (Require two_require_File). Path (Mod r) = ''example.com/a'' \<longrightarrow> Syntax r \<noteq> None"
    by (simp add: two_require_File_def)
  have h2: "distinct (lines_for (Require two_require_File) ''example.com/a'')"
    by (simp add: two_require_File_def lines_for_def)
  have ex: "\<exists>r\<in>set (Require two_require_File). Path (Mod r) = ''example.com/a''"
    by (simp add: two_require_File_def)
  have f0: "first_for (Require two_require_File) ''example.com/a'' 0"
    by (simp add: first_for_def two_require_File_def)
  have f1: "\<not> first_for (Require two_require_File) ''example.com/a'' 1"
    by (simp add: first_for_def two_require_File_def)
  from C3_AddRequire [OF h1 h2, of ref_ext "''v1.2.0''"] ex
  obtain f' where r: "AddRequire ref_ext two_require_File ''example.com/a'' ''v1.2.0'' = Some f'"
    and len: "length (Require f') = length (Require two_require_File)"
    and nth: "\<forall>j<length (Require two_require_File).
          Require f' ! j =
            (if Path (Mod (Require two_require_File ! j)) \<noteq> ''example.com/a''
             then Require two_require_File ! j
             else if first_for (Require two_require_File) ''example.com/a'' j
               then (Require two_require_File ! j)
                      \<lparr>Mod := \<lparr>Path = ''example.com/a'', Version = ''v1.2.0''\<rparr>\<rparr>
             else zero_Require)"
    by blast
  from len have l2: "length (Require f') = 2" by (simp add: two_require_File_def)
  from nth f0 have n0: "Require f' ! 0 =
      \<lparr>Mod = \<lparr>Path = ''example.com/a'', Version = ''v1.2.0''\<rparr>, Syntax = Some 0\<rparr>"
    by (simp add: two_require_File_def)
  have "1 < length (Require two_require_File)" by (simp add: two_require_File_def)
  with nth f1 have n1: "Require f' ! 1 = zero_Require"
    by (simp add: two_require_File_def)
  from l2 have "Require f' = [Require f' ! 0, Require f' ! 1]"
    by (cases "Require f'"; cases "tl (Require f')") auto
  with n0 n1 have "Require f' =
      [\<lparr>Mod = \<lparr>Path = ''example.com/a'', Version = ''v1.2.0''\<rparr>, Syntax = Some 0\<rparr>, zero_Require]"
    by simp
  then have "requires_of f' ''example.com/a'' =
        [\<lparr>Mod = \<lparr>Path = ''example.com/a'', Version = ''v1.2.0''\<rparr>, Syntax = Some 0\<rparr>]"
    by (simp add: requires_of_def zero_Require_def zero_Version_def)
  moreover have "lines_for (Require two_require_File) ''example.com/a'' = [Some 0, Some 1]"
    by (simp add: two_require_File_def lines_for_def)
  ultimately show ?thesis using h2 r l2 n0 n1 by blast
qed

section \<open>Claim C4\<close>













section \<open>Claim C7\<close>


















end
